theory Spec2Isabelle
  imports Complex_Main
begin

section \<open>Strings and numbers of the host language\<close>

text \<open>
  A JavaScript string is a sequence of UTF-16 code units. The code units are kept as
  natural numbers, so that the typographic quotation marks (U+201C, ...) and the
  Devanagari danda (U+0964) that the source names are ordinary elements.
  \<open>str\<close> turns an ASCII literal into such a string.
\<close>

type_synonym jsstring = "nat list"

definition str :: "string \<Rightarrow> jsstring" where
  "str s = map of_char s"

text \<open>
  The white space of \<open>String.prototype.trim\<close> and of the regular expression class
  \<open>\s\<close>: TAB, LF, VT, FF, CR, space, NBSP, U+1680, U+2000..U+200A, LS, PS, U+202F,
  U+205F, U+3000 and the byte order mark.
\<close>

definition is_space :: "nat \<Rightarrow> bool" where
  "is_space c \<longleftrightarrow>
     c = 9 \<or> c = 10 \<or> c = 11 \<or> c = 12 \<or> c = 13 \<or> c = 32 \<or> c = 160 \<or> c = 5760 \<or>
     (8192 \<le> c \<and> c \<le> 8202) \<or> c = 8232 \<or> c = 8233 \<or> c = 8239 \<or> c = 8287 \<or>
     c = 12288 \<or> c = 65279"

definition trim :: "jsstring \<Rightarrow> jsstring" where
  "trim s = rev (dropWhile is_space (rev (dropWhile is_space s)))"

text \<open>\<open>Array.prototype.join\<close> with a separator.\<close>

fun join :: "jsstring \<Rightarrow> jsstring list \<Rightarrow> jsstring" where
  "join sep [] = []"
| "join sep [x] = x"
| "join sep (x # y # ys) = x @ sep @ join sep (y # ys)"

text \<open>\<open>String.prototype.startsWith\<close> and \<open>endsWith\<close>.\<close>

definition startsWith :: "jsstring \<Rightarrow> jsstring \<Rightarrow> bool" where
  "startsWith s p \<longleftrightarrow> take (length p) s = p"

definition endsWith :: "jsstring \<Rightarrow> jsstring \<Rightarrow> bool" where
  "endsWith s p \<longleftrightarrow> length p \<le> length s \<and> drop (length s - length p) s = p"

text \<open>The decimal rendering of a non-negative integer (template literals, \<open>String(n)\<close>).\<close>

function decimal :: "nat \<Rightarrow> jsstring" where
  "decimal n = (if n < 10 then [48 + n] else decimal (n div 10) @ [48 + n mod 10])"
  by pat_completeness auto
termination
  by (relation "measure id") auto

declare decimal.simps [simp del]

section \<open>Data model\<close>

text \<open>
  \<open>type WordInfo = { word: string; startTime: number; endTime: number }\<close> and
  \<open>type Scene\<close> of \<open>app/actions.ts\<close>. Times are seconds; they are modelled by real
  numbers (the rounding of IEEE doubles is not part of the model). A scene number is
  the natural number that segmentation assigns. \<open>null\<close> is \<open>None\<close>.
\<close>

record WordInfo =
  word :: jsstring
  startTime :: real
  endTime :: real

record Scene =
  scene :: nat
  start_time_secs :: real
  end_time_secs :: real
  script :: jsstring
  prompt :: "jsstring option"
  image_url :: "jsstring option"

section \<open>Step 2: segmentation of the word timeline\<close>

text \<open>
  \<open>SENTENCE_END_RE = /[.?!]|\<dots>/\<close> where the last alternative is the danda U+0964;
  \<open>test\<close> succeeds when the token contains one of the four characters.
\<close>

definition SENTENCE_END_RE_test :: "jsstring \<Rightarrow> bool" where
  "SENTENCE_END_RE_test token \<longleftrightarrow> (\<exists>c \<in> set token. c = 46 \<or> c = 63 \<or> c = 33 \<or> c = 2404)"

definition TARGET_DURATION_SEC :: real where
  "TARGET_DURATION_SEC = 7"

text \<open>
  The \<open>for\<close> loop of \<open>runStep2_ChunkScript\<close>. The state is the scene array built so
  far, the token buffer and the buffer's start time; the last argument holds the words
  from index \<open>i\<close> on, so \<open>isLast\<close> is "no word follows" and \<open>words[i + 1]\<close> is the
  head of the rest.
\<close>

fun chunk_loop :: "Scene list \<Rightarrow> jsstring list \<Rightarrow> real \<Rightarrow> WordInfo list \<Rightarrow> Scene list" where
  "chunk_loop scenes currentTokens currentStart [] = scenes"
| "chunk_loop scenes currentTokens currentStart (w # rest) =
     (let token = word w;
          tokens' = currentTokens @ [token];
          isLast = (rest = []);
          curDuration = endTime w - currentStart;
          endHere = ((SENTENCE_END_RE_test token \<and> curDuration \<ge> TARGET_DURATION_SEC) \<or> isLast)
      in if endHere \<and> length tokens' > 0
         then chunk_loop
                (scenes @ [\<lparr> scene = length scenes + 1,
                             start_time_secs = currentStart,
                             end_time_secs = endTime w,
                             script = trim (join [32] tokens'),
                             prompt = None,
                             image_url = None \<rparr>])
                []
                (case rest of [] \<Rightarrow> currentStart | w' # _ \<Rightarrow> startTime w')
                rest
         else chunk_loop scenes tokens' currentStart rest)"

text \<open>
  \<open>runStep2_ChunkScript\<close>: the value returned. Persisting the scene list
  (\<open>saveChunkedJson\<close>) catches its own errors and does not change the result.
\<close>

definition runStep2_ChunkScript :: "WordInfo list \<Rightarrow> Scene list" where
  "runStep2_ChunkScript words =
     (case words of
        [] \<Rightarrow> []
      | w0 # _ \<Rightarrow> chunk_loop [] [] (startTime w0) words)"

text \<open>
  Splitting a string on white space: the maximal runs of characters that are not white
  space, in order. This is the notion of "token" that the specification uses to compare
  the scenes' texts with the input words.
\<close>

fun split_on_space :: "jsstring \<Rightarrow> jsstring list" where
  "split_on_space [] = [[]]"
| "split_on_space (c # cs) =
     (if is_space c then [] # split_on_space cs
      else (case split_on_space cs of [] \<Rightarrow> [[c]] | t # ts \<Rightarrow> (c # t) # ts))"

definition tokens :: "jsstring \<Rightarrow> jsstring list" where
  "tokens s = filter (\<lambda>t. t \<noteq> []) (split_on_space s)"

section \<open>Values of the host language: numbers, JSON, exceptions\<close>

text \<open>
  A JavaScript number is a finite value, an infinity or NaN. Finite values are real
  numbers here. \<open>JSON.parse\<close> yields one of six kinds of value; an object is the
  association list of its properties, each name listed once.
\<close>

datatype jsnumber = Finite real | PosInfinity | NegInfinity | NaN

datatype json =
    JNull
  | JBool bool
  | JNumber jsnumber
  | JString jsstring
  | JArray "json list"
  | JObject "(jsstring \<times> json) list"

text \<open>
  A thrown value, with what reading its \<open>message\<close> property gives (\<open>None\<close> when the
  property is absent). Every function that can throw returns \<open>exn + 'a\<close>, \<open>Inl\<close>
  the exception.
\<close>

datatype exn = Thrown "jsstring option"

fun message :: "exn \<Rightarrow> jsstring option" where
  "message (Thrown m) = m"

definition Error :: "jsstring \<Rightarrow> exn" where
  "Error m = Thrown (Some m)"

text \<open>A string is falsy exactly when it is empty; \<open>x || d\<close> on a string or absent value.\<close>

definition or_default :: "jsstring option \<Rightarrow> jsstring \<Rightarrow> jsstring" where
  "or_default x d = (case x of None \<Rightarrow> d | Some s \<Rightarrow> if s = [] then d else s)"

text \<open>The text of \<open>e.message\<close> inside a template literal.\<close>

definition message_text :: "exn \<Rightarrow> jsstring" where
  "message_text e = (case message e of None \<Rightarrow> str ''undefined'' | Some m \<Rightarrow> m)"

text \<open>Truthiness of a JSON value.\<close>

fun truthy :: "json \<Rightarrow> bool" where
  "truthy JNull = False"
| "truthy (JBool b) = b"
| "truthy (JNumber (Finite x)) = (x \<noteq> 0)"
| "truthy (JNumber NaN) = False"
| "truthy (JNumber _) = True"
| "truthy (JString s) = (s \<noteq> [])"
| "truthy (JArray _) = True"
| "truthy (JObject _) = True"

text \<open>
  Reading a property of a parsed value: \<open>None\<close> is \<open>undefined\<close>. Only objects carry
  the properties that the source reads (\<open>analysis\<close>, \<open>scenes\<close>, \<open>scene_id\<close>,
  \<open>scene\<close>, \<open>id\<close>, \<open>index\<close>, \<open>prompt\<close>).
\<close>

fun get_prop :: "json \<Rightarrow> jsstring \<Rightarrow> json option" where
  "get_prop (JObject props) k = map_of props k"
| "get_prop _ k = None"

text \<open>\<open>a ?? b\<close>: the left operand unless it is \<open>undefined\<close> or \<open>null\<close>.\<close>

definition nullish_or :: "json option \<Rightarrow> json option \<Rightarrow> json option" where
  "nullish_or a b = (case a of None \<Rightarrow> b | Some JNull \<Rightarrow> b | Some v \<Rightarrow> Some v)"

text \<open>
  The Number value of a non-negative integer: itself below \<open>2^53\<close>, otherwise rounded
  to 53 significant bits (ties to even), and \<open>Infinity\<close> from \<open>2^1024\<close> on.
\<close>

function bit_length :: "nat \<Rightarrow> nat" where
  "bit_length n = (if n = 0 then 0 else Suc (bit_length (n div 2)))"
  by pat_completeness auto
termination
  by (relation "measure id") auto

declare bit_length.simps [simp del]

definition number_of_nat :: "nat \<Rightarrow> jsnumber" where
  "number_of_nat n =
     (if n < 2 ^ 53 then Finite (real n)
      else let e = bit_length n - 53;
               q = n div 2 ^ e;
               r = n mod 2 ^ e;
               h = 2 ^ (e - 1);
               q' = (if r > h \<or> (r = h \<and> odd q) then q + 1 else q);
               v = q' * 2 ^ e
           in if v \<ge> 2 ^ 1024 then PosInfinity else Finite (real v))"

definition is_digit :: "nat \<Rightarrow> bool" where
  "is_digit c \<longleftrightarrow> 48 \<le> c \<and> c \<le> 57"

text \<open>The integer written by a string of decimal digits (most significant first).\<close>

definition digits_value :: "jsstring \<Rightarrow> nat" where
  "digits_value ds = foldl (\<lambda>acc c. 10 * acc + (c - 48)) 0 ds"

text \<open>\<open>parseInt(s, 10)\<close> for a string \<open>s\<close> of decimal digits only: NaN when it is empty.\<close>

definition parseInt_digits :: "jsstring \<Rightarrow> jsnumber" where
  "parseInt_digits ds = (if ds = [] then NaN else number_of_nat (digits_value ds))"

definition isFinite :: "jsnumber \<Rightarrow> bool" where
  "isFinite n = (case n of Finite _ \<Rightarrow> True | _ \<Rightarrow> False)"

section \<open>Identifier extraction\<close>

text \<open>
  \<open>coerceSceneId\<close>: \<open>null\<close> is \<open>None\<close>. The argument is the candidate value.
\<close>

fun coerceSceneId :: "json \<Rightarrow> jsnumber option" where
  "coerceSceneId (JNumber n) = (if isFinite n then Some n else None)"
| "coerceSceneId (JString s) =
     (let num = parseInt_digits (filter is_digit s)
      in if isFinite num then Some num else None)"
| "coerceSceneId _ = None"

text \<open>
  The candidate of \<open>extractSceneId\<close>:
  \<open>obj.scene_id ?? obj.scene ?? obj.id ?? obj.index ?? null\<close>.
\<close>

definition id_candidate :: "json \<Rightarrow> json" where
  "id_candidate obj =
     (case nullish_or (get_prop obj (str ''scene_id''))
             (nullish_or (get_prop obj (str ''scene''))
               (nullish_or (get_prop obj (str ''id''))
                 (nullish_or (get_prop obj (str ''index'')) (Some JNull)))) of
        None \<Rightarrow> JNull
      | Some v \<Rightarrow> v)"

text \<open>
  \<open>extractSceneId\<close>. \<open>!obj || typeof obj !== 'object'\<close> holds for every parsed value
  but an object or an array.
\<close>

fun extractSceneId :: "json \<Rightarrow> jsnumber option" where
  "extractSceneId (JObject props) = coerceSceneId (id_candidate (JObject props))"
| "extractSceneId (JArray xs) = coerceSceneId (id_candidate (JArray xs))"
| "extractSceneId _ = None"

section \<open>The sanitizer and parser for the text model's reply\<close>

text \<open>
  \<open>text.trim().match(/```(?:json)?\n([\s\S]*?)```/i)\<close>. \<open>until_fence\<close> is the lazy
  group: the shortest text that is followed by three backquotes (code unit 96).
  \<open>fence_at\<close> matches at the start of its argument, \<open>fence_match\<close> searches the first
  position where a match starts and yields group 1.
\<close>

fun until_fence :: "jsstring \<Rightarrow> jsstring option" where
  "until_fence [] = None"
| "until_fence (c # cs) =
     (if startsWith (c # cs) [96, 96, 96] then Some []
      else map_option (\<lambda>g. c # g) (until_fence cs))"

definition is_json_tag :: "jsstring \<Rightarrow> bool" where
  "is_json_tag t \<longleftrightarrow>
     length t = 4 \<and> (t ! 0 = 106 \<or> t ! 0 = 74) \<and> (t ! 1 = 115 \<or> t ! 1 = 83) \<and>
     (t ! 2 = 111 \<or> t ! 2 = 79) \<and> (t ! 3 = 110 \<or> t ! 3 = 78)"

definition fence_at :: "jsstring \<Rightarrow> jsstring option" where
  "fence_at s =
     (if startsWith s [96, 96, 96]
      then (let r = drop 3 s
            in if is_json_tag (take 4 r) \<and> startsWith (drop 4 r) [10] then until_fence (drop 5 r)
               else if startsWith r [10] then until_fence (drop 1 r)
               else None)
      else None)"

fun fence_match :: "jsstring \<Rightarrow> jsstring option" where
  "fence_match [] = None"
| "fence_match (c # cs) =
     (case fence_at (c # cs) of Some g \<Rightarrow> Some g | None \<Rightarrow> fence_match cs)"

definition extractPossibleJSON :: "jsstring \<Rightarrow> jsstring" where
  "extractPossibleJSON text =
     (if text = [] then text
      else let trimmed = trim text
           in case fence_match trimmed of
                Some g \<Rightarrow> if g \<noteq> [] then trim g else trimmed
              | None \<Rightarrow> trimmed)"

text \<open>
  \<open>removeTrailingCommas\<close>: first \<open>replace(/,\s*([}\]])/g, '$1')\<close>, then the four
  typographic quotation marks U+201C, U+201D, U+2018, U+2019 become \<open>"\<close> (34).
\<close>

function strip_commas :: "jsstring \<Rightarrow> jsstring" where
  "strip_commas [] = []"
| "strip_commas (c # cs) =
     (if c = 44
      then (case dropWhile is_space cs of
              [] \<Rightarrow> c # strip_commas cs
            | b # rest \<Rightarrow> if b = 125 \<or> b = 93 then b # strip_commas rest
                          else c # strip_commas cs)
      else c # strip_commas cs)"
  by pat_completeness auto
termination
proof (relation "measure length")
  fix c :: nat and cs :: "nat list" and b rest
  assume "dropWhile is_space cs = b # rest"
  then have "length (b # rest) \<le> length cs"
    by (metis length_dropWhile_le)
  then show "(rest, c # cs) \<in> measure length" by simp
qed auto

definition plain_quote :: "nat \<Rightarrow> nat" where
  "plain_quote c = (if c = 8220 \<or> c = 8221 \<or> c = 8216 \<or> c = 8217 then 34 else c)"

definition removeTrailingCommas :: "jsstring \<Rightarrow> jsstring" where
  "removeTrailingCommas jsonLike = map plain_quote (strip_commas jsonLike)"

text \<open>
  \<open>parseModelJSON\<close>. \<open>JSON.parse\<close> belongs to the platform; it is the parameter
  \<open>JSON_parse\<close>, which yields the parsed value or the SyntaxError it throws.
\<close>

definition parseModelJSON :: "(jsstring \<Rightarrow> exn + json) \<Rightarrow> jsstring \<Rightarrow> exn + json" where
  "parseModelJSON JSON_parse raw =
     (case JSON_parse raw of
        Inr v \<Rightarrow> Inr v
      | Inl _ \<Rightarrow> (let cleaned = removeTrailingCommas (extractPossibleJSON raw)
                  in JSON_parse cleaned))"

section \<open>Step 3: reconciling the model's prompts with the scenes\<close>

text \<open>\<open>/16:9\.?$/i.test(pRaw)\<close>: the text ends with \<open>16:9\<close> or with \<open>16:9.\<close>\<close>

definition ends_with_ratio :: "jsstring \<Rightarrow> bool" where
  "ends_with_ratio p \<longleftrightarrow> endsWith p (str ''16:9'') \<or> endsWith p (str ''16:9.'')"

definition promptFinal :: "jsstring \<Rightarrow> jsstring" where
  "promptFinal pRaw =
     (if ends_with_ratio pRaw then pRaw
      else if endsWith pRaw (str ''.'') then pRaw @ str '' 16:9.''
      else pRaw @ str ''. 16:9.'')"

text \<open>
  \<open>typeof scenePrompt.prompt === 'string' ? scenePrompt.prompt.trim() : ''\<close>. Reading
  a property of \<open>null\<close> throws a TypeError; every other parsed value can be read.
\<close>

definition pRaw_of :: "json \<Rightarrow> exn + jsstring" where
  "pRaw_of scenePrompt =
     (case scenePrompt of
        JNull \<Rightarrow> Inl (Error (str ''Cannot read properties of null''))
      | _ \<Rightarrow> (case get_prop scenePrompt (str ''prompt'') of
                 Some (JString p) \<Rightarrow> Inr (trim p)
               | _ \<Rightarrow> Inr []))"

text \<open>
  \<open>promptMap\<close> is a \<open>Map<number, string>\<close>. The first \<open>forEach\<close> fills it by
  identifier when \<open>sid && pRaw\<close> holds (the identifier is not \<open>null\<close> or \<open>0\<close>,
  the prompt is not empty), the second by position (\<open>idx\<close> counts from 0).
\<close>

type_synonym promptMap = "jsnumber \<rightharpoonup> jsstring"

fun id_pass :: "promptMap \<Rightarrow> json list \<Rightarrow> exn + promptMap" where
  "id_pass m [] = Inr m"
| "id_pass m (scenePrompt # rest) =
     (let sid = extractSceneId scenePrompt
      in case pRaw_of scenePrompt of
           Inl e \<Rightarrow> Inl e
         | Inr pRaw \<Rightarrow>
             (case sid of
                None \<Rightarrow> id_pass m rest
              | Some n \<Rightarrow>
                  if truthy (JNumber n) \<and> pRaw \<noteq> []
                  then id_pass (m(n \<mapsto> promptFinal pRaw)) rest
                  else id_pass m rest))"

fun positional_pass :: "promptMap \<Rightarrow> nat \<Rightarrow> json list \<Rightarrow> exn + promptMap" where
  "positional_pass m idx [] = Inr m"
| "positional_pass m idx (scenePrompt # rest) =
     (case pRaw_of scenePrompt of
        Inl e \<Rightarrow> Inl e
      | Inr pRaw \<Rightarrow>
          if pRaw = [] then positional_pass m (idx + 1) rest
          else positional_pass (m(Finite (real (idx + 1)) \<mapsto> promptFinal pRaw)) (idx + 1) rest)"

text \<open>The map after both loops (lines 382 to 405 of the source).\<close>

definition build_promptMap :: "json list \<Rightarrow> exn + promptMap" where
  "build_promptMap records =
     (case id_pass Map.empty records of
        Inl e \<Rightarrow> Inl e
      | Inr m \<Rightarrow> if m = Map.empty then positional_pass m 0 records else Inr m)"

definition placeholder_prompt :: "nat \<Rightarrow> jsstring" where
  "placeholder_prompt n = str ''Failed to generate prompt for scene '' @ decimal n"

definition apply_prompts :: "promptMap \<Rightarrow> Scene list \<Rightarrow> Scene list" where
  "apply_prompts m scenes =
     map (\<lambda>s. s\<lparr>prompt := Some (or_default (m (Finite (real (scene s))))
                                 (placeholder_prompt (scene s)))\<rparr>) scenes"

section \<open>Collaborators\<close>

text \<open>
  Everything outside the repository is a field of \<open>env\<close>: platform functions
  (\<open>JSON.parse\<close>, \<open>toLowerCase\<close>, \<open>Date.now\<close>, the \<open>URL\<close> class,
  \<open>path.basename\<close>, \<open>process.cwd\<close>, \<open>toFixed\<close> with three digits), configuration (the FFmpeg path, the bucket
  names) and the outcome of each external call: \<open>None\<close> or \<open>Inr\<close> when it succeeds,
  the exception otherwise. A theorem quantified over \<open>env\<close> holds for every behaviour
  of the collaborators.
\<close>

record File =
  file_name :: jsstring

record gen_reply =
  reply_text :: "jsstring option"
  blockReason :: "jsstring option"

text \<open>
  \<open>inputsTxtContent\<close> is a text of lines; a line is kept as a value.
  \<open>FileLine name\<close> is the line \<open>file '<name>'\<close>. \<open>DurationLine t\<close> is the line
  \<open>duration <t>\<close>, where \<open>t\<close> is the text that \<open>duration.toFixed(3)\<close> returns.
\<close>

datatype manifest_line = FileLine jsstring | DurationLine jsstring

type_synonym manifest = "manifest_line list"

record env =
  json_parse :: "jsstring \<Rightarrow> exn + json"
  toLowerCase :: "jsstring \<Rightarrow> jsstring"
  date_now :: nat
  url_pathname :: "jsstring \<Rightarrow> jsstring option"
  path_basename :: "jsstring \<Rightarrow> jsstring"
  toFixed3 :: "real \<Rightarrow> jsstring"
  cwd :: jsstring
  ffmpegBin :: jsstring
  audioBucketName :: jsstring
  imageBucketName :: jsstring
  videoBucketName :: jsstring
  ffmpeg_accessible :: bool
  transcribe :: "jsstring \<Rightarrow> File \<Rightarrow> exn + WordInfo list"
  generateContent :: "jsstring \<Rightarrow> jsstring \<Rightarrow> exn + gen_reply"
  generateImages :: "jsstring \<Rightarrow> exn + jsstring option"
  save_image :: "jsstring \<Rightarrow> exn option"
  mkdir_error :: "exn option"
  gcs_download :: "jsstring \<Rightarrow> jsstring \<Rightarrow> exn option"
  writeFile_error :: "exn option"
  ffmpeg_error :: "manifest \<Rightarrow> jsstring option"
  upload_error :: "exn option"

text \<open>
  The file system is the list of the paths that exist. \<open>path.join\<close> is concatenation
  with \<open>/\<close> (resolving \<open>.\<close> and \<open>..\<close> segments is not modelled).
  \<open>fs.rm(dir, { recursive: true, force: true })\<close> removes the directory and every path
  below it (a failure of the removal itself is not modelled).
\<close>

type_synonym filesystem = "jsstring list"

definition path_join :: "jsstring list \<Rightarrow> jsstring" where
  "path_join parts = join [47] parts"

definition inside :: "jsstring \<Rightarrow> jsstring \<Rightarrow> bool" where
  "inside dir p \<longleftrightarrow> p = dir \<or> startsWith p (dir @ [47])"

definition rm_recursive :: "jsstring \<Rightarrow> filesystem \<Rightarrow> filesystem" where
  "rm_recursive dir fs = filter (\<lambda>p. \<not> inside dir p) fs"

section \<open>Helpers of the job\<close>

text \<open>\<open>lastIndexOf\<close> of a character: \<open>None\<close> stands for \<open>-1\<close>.\<close>

definition lastIndexOf :: "jsstring \<Rightarrow> nat \<Rightarrow> nat option" where
  "lastIndexOf s c =
     (if c \<in> set s then Some (length s - 1 - length (takeWhile (\<lambda>x. x \<noteq> c) (rev s)))
      else None)"

fun collapse_dashes :: "jsstring \<Rightarrow> jsstring" where
  "collapse_dashes [] = []"
| "collapse_dashes [c] = [c]"
| "collapse_dashes (c # d # cs) =
     (if c = 45 \<and> d = 45 then collapse_dashes (d # cs) else c # collapse_dashes (d # cs))"

definition is_lower_alnum :: "nat \<Rightarrow> bool" where
  "is_lower_alnum c \<longleftrightarrow> (97 \<le> c \<and> c \<le> 122) \<or> (48 \<le> c \<and> c \<le> 57)"

text \<open>\<open>replace(/^-|-$/g, '')\<close>: one dash at the start and one at the end are removed.\<close>

definition strip_edge_dashes :: "jsstring \<Rightarrow> jsstring" where
  "strip_edge_dashes s =
     (let t = (case s of [] \<Rightarrow> [] | c # cs \<Rightarrow> if c = 45 then cs else s)
      in if t \<noteq> [] \<and> last t = 45 then butlast t else t)"

definition getJobId :: "env \<Rightarrow> jsstring \<Rightarrow> jsstring" where
  "getJobId env filename =
     (let name = (case lastIndexOf filename 46 of None \<Rightarrow> filename | Some i \<Rightarrow> take i filename)
      in strip_edge_dashes
           (collapse_dashes
              (map (\<lambda>c. if is_lower_alnum c then c else 45) (toLowerCase env name))))"

text \<open>\<open>s.padStart(3, '0')\<close>.\<close>

definition padStart3 :: "jsstring \<Rightarrow> jsstring" where
  "padStart3 s = replicate (3 - length s) 48 @ s"

text \<open>\<open>s.replace('gs://', '')\<close>: the first occurrence is removed.\<close>

fun remove_first :: "jsstring \<Rightarrow> jsstring \<Rightarrow> jsstring" where
  "remove_first pat [] = []"
| "remove_first pat (c # cs) =
     (if startsWith (c # cs) pat then drop (length pat) (c # cs)
      else c # remove_first pat cs)"

text \<open>\<open>s.split('/')\<close>, for any separator character.\<close>

fun split_char :: "nat \<Rightarrow> jsstring \<Rightarrow> jsstring list" where
  "split_char sep [] = [[]]"
| "split_char sep (c # cs) =
     (if c = sep then [] # split_char sep cs
      else (case split_char sep cs of [] \<Rightarrow> [[c]] | t # ts \<Rightarrow> (c # t) # ts))"

section \<open>Step 1: transcription\<close>

text \<open>
  \<open>runStep1_Transcribe\<close>. The upload, the recognition call and the loop that converts
  the recognized words are the collaborator \<open>transcribe\<close>: it yields the array
  \<open>words\<close> as it stands before the emptiness check, or the exception thrown before.
  \<open>file.name.substring(file.name.lastIndexOf('.'))\<close> is the whole name when it has no
  dot. Saving the transcript catches its own errors.
\<close>

definition runStep1_Transcribe :: "env \<Rightarrow> jsstring \<Rightarrow> File \<Rightarrow> exn + (WordInfo list \<times> jsstring)" where
  "runStep1_Transcribe env fullJobId file =
     (let fileExtension = (case lastIndexOf (file_name file) 46 of
                             None \<Rightarrow> file_name file
                           | Some i \<Rightarrow> drop i (file_name file));
          audioFileName = fullJobId @ fileExtension;
          audioFilePath = str ''gs://'' @ audioBucketName env @ [47] @ audioFileName
      in case transcribe env audioFilePath file of
           Inl e \<Rightarrow> Inl e
         | Inr words \<Rightarrow>
             if length words = 0 then Inl (Error (str ''Transcription produced zero words.''))
             else Inr (words, audioFilePath))"

section \<open>Step 3: calling the text model\<close>

text \<open>
  \<open>runStep3_AnalyzeAndGeneratePrompts\<close>. The instruction sent to the text model is a
  fixed template around the full script and the scene list; the collaborator takes
  these two texts. \<open>responseText\<close> is falsy when absent or empty.
\<close>

definition scene_line :: "Scene \<Rightarrow> jsstring" where
  "scene_line s = str ''Scene '' @ decimal (scene s) @ str '': '' @ [34] @ script s @ [34]"

definition is_truthy_prop :: "json option \<Rightarrow> bool" where
  "is_truthy_prop v = (case v of None \<Rightarrow> False | Some x \<Rightarrow> truthy x)"

definition runStep3_AnalyzeAndGeneratePrompts :: "env \<Rightarrow> Scene list \<Rightarrow> jsstring \<Rightarrow> exn + Scene list" where
  "runStep3_AnalyzeAndGeneratePrompts env scenes fullScript =
     (let sceneList = join [10] (map scene_line scenes)
      in case generateContent env fullScript sceneList of
           Inl e \<Rightarrow> Inl e
         | Inr result \<Rightarrow>
             if or_default (reply_text result) [] = []
             then (if or_default (blockReason result) [] \<noteq> []
                   then Inl (Error (str ''Gemini safety blocked the request: '' @
                                    or_default (blockReason result) []))
                   else Inl (Error (str ''Gemini returned an empty response for prompt generation.'')))
             else (let raw = extractPossibleJSON (or_default (reply_text result) [])
                   in case parseModelJSON (json_parse env) raw of
                        Inl e \<Rightarrow> Inl (Error (str ''Gemini returned malformed JSON: '' @ message_text e))
                      | Inr parsed \<Rightarrow>
                          (case get_prop parsed (str ''scenes'') of
                             Some (JArray records) \<Rightarrow>
                               if \<not> is_truthy_prop (get_prop parsed (str ''analysis''))
                               then Inl (Error (str ''Gemini returned malformed JSON for prompt generation.''))
                               else (case build_promptMap records of
                                       Inl e \<Rightarrow> Inl e
                                     | Inr m \<Rightarrow> Inr (apply_prompts m scenes))
                           | _ \<Rightarrow> Inl (Error (str ''Gemini returned malformed JSON for prompt generation.'')))))"

section \<open>Step 4: image generation\<close>

text \<open>
  The \<open>try\<close> block of one scene: the image call, the check of the returned bytes, the
  file name, the upload and the public URL.
\<close>

definition generate_scene_image :: "env \<Rightarrow> Scene \<Rightarrow> jsstring \<Rightarrow> exn + jsstring" where
  "generate_scene_image env s p =
     (case generateImages env p of
        Inl e \<Rightarrow> Inl e
      | Inr imageBytesB64 \<Rightarrow>
          if or_default imageBytesB64 [] = [] then Inl (Error (str ''Imagen returned no image data.''))
          else (let filename = str ''scene_'' @ padStart3 (decimal (scene s)) @ str ''_'' @
                               decimal (date_now env) @ str ''.png''
                in case save_image env filename of
                     Some e \<Rightarrow> Inl e
                   | None \<Rightarrow> Inr (str ''https://storage.googleapis.com/'' @ imageBucketName env @
                                   [47] @ filename)))"

text \<open>
  The \<open>for\<close> loop of \<open>runStep4_GenerateImages\<close>. Besides \<open>finalScenes\<close> the state
  holds the log of the prompts sent to the image model, so that "no image call is made"
  can be stated.
\<close>

fun image_loop :: "env \<Rightarrow> Scene list \<Rightarrow> jsstring list \<Rightarrow> Scene list \<Rightarrow> Scene list \<times> jsstring list" where
  "image_loop env finalScenes calls [] = (finalScenes, calls)"
| "image_loop env finalScenes calls (s # rest) =
     (case prompt s of
        None \<Rightarrow> image_loop env (finalScenes @ [s]) calls rest
      | Some p \<Rightarrow>
          if p = [] \<or> startsWith p (str ''Failed to generate'')
          then image_loop env (finalScenes @ [s]) calls rest
          else (case generate_scene_image env s p of
                  Inr publicUrl \<Rightarrow>
                    image_loop env (finalScenes @ [s\<lparr>image_url := Some publicUrl\<rparr>])
                      (calls @ [p]) rest
                | Inl error \<Rightarrow>
                    image_loop env
                      (finalScenes @
                       [s\<lparr>image_url := Some (str ''ERROR: '' @
                            or_default (message error) (str ''Unknown image generation error''))\<rparr>])
                      (calls @ [p]) rest))"

definition runStep4_GenerateImages :: "env \<Rightarrow> Scene list \<Rightarrow> Scene list \<times> jsstring list" where
  "runStep4_GenerateImages env scenesWithPrompts = image_loop env [] [] scenesWithPrompts"

section \<open>Step 5: video assembly\<close>

definition assertFfmpeg :: "env \<Rightarrow> exn option" where
  "assertFfmpeg env =
     (if ffmpegBin env = [] then Some (Error (str ''FFmpeg path not resolved''))
      else if \<not> ffmpeg_accessible env then Some (Error (str ''FFmpeg not found at: '' @ ffmpegBin env))
      else None)"

text \<open>
  The \<open>for\<close> loop over the scenes (lines 510 to 526). The state is
  \<open>inputsTxtContent\<close>, \<open>localImagePaths\<close>, \<open>lastImageFileName\<close> and the file
  system; \<open>new URL\<close> throws a TypeError on a text it cannot parse.
\<close>

fun manifest_loop ::
  "env \<Rightarrow> jsstring \<Rightarrow> manifest \<Rightarrow> jsstring list \<Rightarrow> jsstring option \<Rightarrow> filesystem \<Rightarrow> Scene list \<Rightarrow>
   (exn + manifest \<times> jsstring list \<times> jsstring option) \<times> filesystem" where
  "manifest_loop env TEMP_DIR inputsTxtContent localImagePaths lastImageFileName fs [] =
     (Inr (inputsTxtContent, localImagePaths, lastImageFileName), fs)"
| "manifest_loop env TEMP_DIR inputsTxtContent localImagePaths lastImageFileName fs (s # rest) =
     (if or_default (image_url s) [] = []
      then manifest_loop env TEMP_DIR inputsTxtContent localImagePaths lastImageFileName fs rest
      else (case url_pathname env (or_default (image_url s) []) of
              None \<Rightarrow> (Inl (Error (str ''Invalid URL'')), fs)
            | Some pathname \<Rightarrow>
                (let imageFileName = path_basename env pathname;
                     localImagePath = path_join [TEMP_DIR, imageFileName]
                 in case gcs_download env (imageBucketName env) imageFileName of
                      Some e \<Rightarrow> (Inl e, fs)
                    | None \<Rightarrow>
                        (let duration = max (5 / 100) (end_time_secs s - start_time_secs s)
                         in manifest_loop env TEMP_DIR
                              (inputsTxtContent @
                               [FileLine imageFileName, DurationLine (toFixed3 env duration)])
                              (localImagePaths @ [localImagePath])
                              (Some imageFileName)
                              (localImagePath # fs)
                              rest))))"

text \<open>
  The manifest written to \<open>inputs.txt\<close>: the loop's content and, when
  \<open>lastImageFileName\<close> is truthy, the last file once more (lines 506 to 531).
\<close>

definition finish_manifest :: "manifest \<Rightarrow> jsstring option \<Rightarrow> manifest" where
  "finish_manifest inputsTxtContent lastImageFileName =
     (if or_default lastImageFileName [] \<noteq> []
      then inputsTxtContent @ [FileLine (or_default lastImageFileName [])]
      else inputsTxtContent)"

definition build_manifest ::
  "env \<Rightarrow> jsstring \<Rightarrow> filesystem \<Rightarrow> Scene list \<Rightarrow> (exn + manifest) \<times> filesystem" where
  "build_manifest env TEMP_DIR fs scenes =
     (case manifest_loop env TEMP_DIR [] [] None fs scenes of
        (Inl e, fs1) \<Rightarrow> (Inl e, fs1)
      | (Inr (content, localImagePaths, lastImageFileName), fs1) \<Rightarrow>
          (Inr (finish_manifest content lastImageFileName), fs1))"

text \<open>The \<open>try\<close> block of \<open>runStep5_CreateVideo\<close> (lines 500 to 563).\<close>

definition step5_try ::
  "env \<Rightarrow> filesystem \<Rightarrow> jsstring \<Rightarrow> jsstring \<Rightarrow> Scene list \<Rightarrow> jsstring \<Rightarrow> (exn + jsstring) \<times> filesystem" where
  "step5_try env fs TEMP_DIR jobId scenes gcsAudioUri =
     (let finalVideoName = jobId @ str ''.mp4'';
          finalVideoPath = path_join [TEMP_DIR, finalVideoName];
          inputsTxtPath = path_join [TEMP_DIR, str ''inputs.txt''];
          localAudioPath = path_join [TEMP_DIR, str ''audio.wav''];
          parts = split_char 47 (remove_first (str ''gs://'') gcsAudioUri);
          audioBucket = hd parts;
          audioFileName = join [47] (tl parts)
      in case gcs_download env audioBucket audioFileName of
           Some e \<Rightarrow> (Inl e, fs)
         | None \<Rightarrow>
             (case build_manifest env TEMP_DIR (localAudioPath # fs) scenes of
                (Inl e, fs1) \<Rightarrow> (Inl e, fs1)
              | (Inr inputsTxtContent, fs1) \<Rightarrow>
                  (case writeFile_error env of
                     Some e \<Rightarrow> (Inl e, fs1)
                   | None \<Rightarrow>
                       (case ffmpeg_error env inputsTxtContent of
                          Some msg \<Rightarrow> (Inl (Error (str ''FFmpeg error: '' @ msg)),
                                       finalVideoPath # inputsTxtPath # fs1)
                        | None \<Rightarrow>
                            (case upload_error env of
                               Some e \<Rightarrow> (Inl e, finalVideoPath # inputsTxtPath # fs1)
                             | None \<Rightarrow>
                                 (Inr (str ''https://storage.googleapis.com/'' @
                                       videoBucketName env @ [47] @ finalVideoName),
                                  finalVideoPath # inputsTxtPath # fs1))))))"

text \<open>
  \<open>runStep5_CreateVideo\<close>: the precondition check and \<open>mkdir\<close> stand before the
  \<open>try\<close>; the \<open>catch\<close> rethrows; the \<open>finally\<close> removes the directory.
\<close>

definition TEMP_DIR_of :: "env \<Rightarrow> jsstring \<Rightarrow> jsstring" where
  "TEMP_DIR_of env jobId = path_join [cwd env, str ''temp'', jobId]"

definition runStep5_CreateVideo ::
  "env \<Rightarrow> filesystem \<Rightarrow> jsstring \<Rightarrow> Scene list \<Rightarrow> jsstring \<Rightarrow> (exn + jsstring) \<times> filesystem" where
  "runStep5_CreateVideo env fs jobId scenes gcsAudioUri =
     (case assertFfmpeg env of
        Some e \<Rightarrow> (Inl e, fs)
      | None \<Rightarrow>
          (let TEMP_DIR = TEMP_DIR_of env jobId
           in case mkdir_error env of
                Some e \<Rightarrow> (Inl e, fs)
              | None \<Rightarrow>
                  (case step5_try env (TEMP_DIR # fs) TEMP_DIR jobId scenes gcsAudioUri of
                     (r, fs') \<Rightarrow> (r, rm_recursive TEMP_DIR fs'))))"

section \<open>The job\<close>

text \<open>
  The value that \<open>generateStoryboard\<close> returns: \<open>{ scenes, video }\<close> or
  \<open>{ error }\<close>.
\<close>

datatype job_result = Complete "Scene list" jsstring | Failed jsstring

text \<open>The \<open>try\<close> block of \<open>generateStoryboard\<close>; \<open>formData.get('audioFile')\<close> is
  the file or \<open>null\<close>.\<close>

definition storyboard_try ::
  "env \<Rightarrow> filesystem \<Rightarrow> File option \<Rightarrow> (exn + Scene list \<times> jsstring) \<times> filesystem" where
  "storyboard_try env fs formData =
     (case formData of
        None \<Rightarrow> (Inl (Error (str ''No audio file found.'')), fs)
      | Some file \<Rightarrow>
          (let jobIdBase = getJobId env (file_name file);
               fullJobId = jobIdBase @ str ''_'' @ decimal (date_now env)
           in case runStep1_Transcribe env fullJobId file of
                Inl e \<Rightarrow> (Inl e, fs)
              | Inr (words, gcsAudioUri) \<Rightarrow>
                  (let fullScript = join [32] (map word words);
                       scenes = runStep2_ChunkScript words
                   in case runStep3_AnalyzeAndGeneratePrompts env scenes fullScript of
                        Inl e \<Rightarrow> (Inl e, fs)
                      | Inr scenesWithPrompts \<Rightarrow>
                          (let finalScenes = fst (runStep4_GenerateImages env scenesWithPrompts)
                           in case runStep5_CreateVideo env fs fullJobId finalScenes gcsAudioUri of
                                (Inl e, fs') \<Rightarrow> (Inl e, fs')
                              | (Inr videoUrl, fs') \<Rightarrow> (Inr (finalScenes, videoUrl), fs')))))"

text \<open>
  \<open>generateStoryboard\<close> with its \<open>catch\<close>. The result type keeps the possibility of
  an exception reaching the caller (\<open>Inl\<close>), so that its absence is a theorem.
\<close>

definition generateStoryboard ::
  "env \<Rightarrow> filesystem \<Rightarrow> File option \<Rightarrow> (exn + job_result) \<times> filesystem" where
  "generateStoryboard env fs formData =
     (case storyboard_try env fs formData of
        (Inr (scenes, video), fs') \<Rightarrow> (Inr (Complete scenes video), fs')
      | (Inl error, fs') \<Rightarrow>
          (Inr (Failed (or_default (message error) (str ''An unknown server error occurred.''))),
           fs'))"

section \<open>Notions used to state the properties\<close>

text \<open>A number that is a positive integer, as the specification words the identifier.\<close>

definition is_positive_integer :: "jsnumber \<Rightarrow> bool" where
  "is_positive_integer n = (case n of Finite x \<Rightarrow> 0 < x \<and> real_of_int \<lfloor>x\<rfloor> = x | _ \<Rightarrow> False)"

text \<open>The priority list of identifier fields, and a value that \<open>??\<close> passes over.\<close>

definition id_fields :: "jsstring list" where
  "id_fields = [str ''scene_id'', str ''scene'', str ''id'', str ''index'']"

definition is_nullish :: "json option \<Rightarrow> bool" where
  "is_nullish v \<longleftrightarrow> v = None \<or> v = Some JNull"

text \<open>
  The trimmed prompt text of a record (empty when the record has no string prompt), and
  a record that the first loop of reconciliation enters into the map: its identifier is
  recovered and is not zero, and its prompt is not empty.
\<close>

definition pRaw_text :: "json \<Rightarrow> jsstring" where
  "pRaw_text r = (case pRaw_of r of Inl _ \<Rightarrow> [] | Inr p \<Rightarrow> p)"

definition usable_record :: "json \<Rightarrow> bool" where
  "usable_record r \<longleftrightarrow>
     (case extractSceneId r of None \<Rightarrow> False | Some n \<Rightarrow> truthy (JNumber n)) \<and> pRaw_text r \<noteq> []"

text \<open>
  The skip condition of the image stage spelled out, and the scene that the stage
  appends for an input scene.
\<close>

definition no_valid_prompt :: "Scene \<Rightarrow> bool" where
  "no_valid_prompt s \<longleftrightarrow>
     (case prompt s of
        None \<Rightarrow> True
      | Some p \<Rightarrow> p = [] \<or> take 18 p = str ''Failed to generate'')"

definition pushed_scene :: "env \<Rightarrow> Scene \<Rightarrow> Scene" where
  "pushed_scene env s =
     (if no_valid_prompt s then s
      else (case generate_scene_image env s (or_default (prompt s) []) of
              Inr publicUrl \<Rightarrow> s\<lparr>image_url := Some publicUrl\<rparr>
            | Inl error \<Rightarrow>
                s\<lparr>image_url := Some (str ''ERROR: '' @
                     or_default (message error) (str ''Unknown image generation error''))\<rparr>))"

text \<open>
  A scene that the assembly loop does not pass over (its image reference is a non-empty
  string), the file name the loop derives from the reference, whether the reference
  parses and downloads, and the two manifest lines of a scene.
\<close>

definition has_image_ref :: "Scene \<Rightarrow> bool" where
  "has_image_ref s \<longleftrightarrow> or_default (image_url s) [] \<noteq> []"

definition imageFileName_of :: "env \<Rightarrow> Scene \<Rightarrow> jsstring" where
  "imageFileName_of env s =
     (case url_pathname env (or_default (image_url s) []) of
        None \<Rightarrow> []
      | Some pathname \<Rightarrow> path_basename env pathname)"

definition fetchable :: "env \<Rightarrow> Scene \<Rightarrow> bool" where
  "fetchable env s \<longleftrightarrow>
     url_pathname env (or_default (image_url s) []) \<noteq> None \<and>
     gcs_download env (imageBucketName env) (imageFileName_of env s) = None"

definition manifest_entry :: "env \<Rightarrow> Scene \<Rightarrow> manifest" where
  "manifest_entry env s =
     [FileLine (imageFileName_of env s),
      DurationLine (toFixed3 env (max (5 / 100) (end_time_secs s - start_time_secs s)))]"

text \<open>
  An image reference that is an error marker of the image stage (it begins with
  \<open>ERROR: \<close>).
\<close>

definition error_marked :: "Scene \<Rightarrow> bool" where
  "error_marked s \<longleftrightarrow> take 7 (or_default (image_url s) []) = str ''ERROR: ''"

section \<open>A sample environment\<close>

text \<open>
  Concrete collaborators on which the model is run. \<open>quoted\<close> writes a JSON string
  literal. The sample \<open>JSON.parse\<close> knows the texts used below and rejects every other
  text. The sample \<open>URL\<close> class yields the path of a storage URL and the opaque path
  of a text that begins with \<open>ERROR:\<close> (read as a scheme), and throws otherwise.
  The sample storage holds the generated scene images only. The sample \<open>toFixed\<close>
  writes the multiple of 0.001 nearest to a non-negative number, the larger one on a
  tie, with three decimals.
\<close>

definition quoted :: "string \<Rightarrow> jsstring" where
  "quoted s = [34] @ str s @ [34]"

definition fenced_example :: jsstring where
  "fenced_example =
     [96, 96, 96] @ str ''json'' @ [10] @ str ''{'' @ quoted ''a'' @ str '':1,}'' @ [10] @ [96, 96, 96]"

definition plain_example :: jsstring where
  "plain_example = str ''{'' @ quoted ''a'' @ str '':1}''"

definition sample_reply :: jsstring where
  "sample_reply =
     str ''{'' @ quoted ''analysis'' @ str '':{'' @ quoted ''backdrop'' @ str '':'' @ quoted ''forest'' @
     str '','' @ quoted ''tone'' @ str '':'' @ quoted ''calm'' @ str ''},'' @ quoted ''scenes'' @
     str '':[{'' @ quoted ''scene_id'' @ str '':'' @ quoted ''2'' @ str '','' @ quoted ''prompt'' @
     str '':'' @ quoted ''A lake'' @ str ''},{'' @ quoted ''scene'' @ str '':'' @ quoted ''scene_1'' @
     str '','' @ quoted ''prompt'' @ str '':'' @ quoted ''A hill. 16:9.'' @ str ''}]}''"

definition sample_reply_value :: json where
  "sample_reply_value =
     JObject
       [(str ''analysis'', JObject [(str ''backdrop'', JString (str ''forest'')),
                                    (str ''tone'', JString (str ''calm''))]),
        (str ''scenes'',
         JArray [JObject [(str ''scene_id'', JString (str ''2'')),
                          (str ''prompt'', JString (str ''A lake''))],
                 JObject [(str ''scene'', JString (str ''scene_1'')),
                          (str ''prompt'', JString (str ''A hill. 16:9.''))]])]"

definition sample_JSON_parse :: "jsstring \<Rightarrow> exn + json" where
  "sample_JSON_parse s =
     (if s = plain_example then Inr (JObject [(str ''a'', JNumber (Finite 1))])
      else if s = sample_reply then Inr sample_reply_value
      else Inl (Error (str ''Unexpected token'')))"

definition sample_url_pathname :: "jsstring \<Rightarrow> jsstring option" where
  "sample_url_pathname u =
     (if startsWith u (str ''https://storage.googleapis.com/'') then Some (drop 30 u)
      else if startsWith u (str ''ERROR:'') then Some (drop 6 u)
      else None)"

definition sample_basename :: "jsstring \<Rightarrow> jsstring" where
  "sample_basename p = last (split_char 47 p)"

definition sample_toFixed3 :: "real \<Rightarrow> jsstring" where
  "sample_toFixed3 x =
     (let n = nat \<lfloor>x * 1000 + 1 / 2\<rfloor>
      in decimal (n div 1000) @ [46] @ padStart3 (decimal (n mod 1000)))"

definition sample_words :: "WordInfo list" where
  "sample_words =
     [\<lparr>word = str ''One.'', startTime = 0, endTime = 8\<rparr>,
      \<lparr>word = str ''Two'', startTime = 8, endTime = 9\<rparr>]"

definition sample_env :: env where
  "sample_env =
     \<lparr> json_parse = sample_JSON_parse,
       toLowerCase = map (\<lambda>c. if 65 \<le> c \<and> c \<le> 90 then c + 32 else c),
       date_now = 17,
       url_pathname = sample_url_pathname,
       path_basename = sample_basename,
       toFixed3 = sample_toFixed3,
       cwd = str ''/app'',
       ffmpegBin = str ''/usr/bin/ffmpeg'',
       audioBucketName = str ''audio'',
       imageBucketName = str ''images'',
       videoBucketName = str ''videos'',
       ffmpeg_accessible = True,
       transcribe = (\<lambda>uri file. Inr sample_words),
       generateContent = (\<lambda>fullScript sceneList. Inr \<lparr>reply_text = Some sample_reply, blockReason = None\<rparr>),
       generateImages = (\<lambda>p. Inr (Some (str ''iVBORw0KGgo=''))),
       save_image = (\<lambda>filename. None),
       mkdir_error = None,
       gcs_download = (\<lambda>bucket name.
          if bucket = str ''images'' \<and> \<not> startsWith name (str ''scene_'')
          then Some (Error (str ''No such object'')) else None),
       writeFile_error = None,
       ffmpeg_error = (\<lambda>content. None),
       upload_error = None \<rparr>"

text \<open>Three finalized scenes: the image call of the second one has failed.\<close>

definition sample_scenes :: "Scene list" where
  "sample_scenes =
     [\<lparr>scene = 1, start_time_secs = 0, end_time_secs = 8, script = str ''One.'',
       prompt = Some (str ''A hill. 16:9.''),
       image_url = Some (str ''https://storage.googleapis.com/images/scene_001_17.png'')\<rparr>,
      \<lparr>scene = 2, start_time_secs = 8, end_time_secs = 16, script = str ''Two.'',
       prompt = Some (str ''A lake. 16:9.''),
       image_url = Some (str ''ERROR: Imagen returned no image data.'')\<rparr>,
      \<lparr>scene = 3, start_time_secs = 16, end_time_secs = 17, script = str ''Three'',
       prompt = Some (str ''A river. 16:9.''),
       image_url = Some (str ''https://storage.googleapis.com/images/scene_003_17.png'')\<rparr>]"

section \<open>Properties of segmentation\<close>

lemma split_on_space_nonempty: "split_on_space s \<noteq> []"
  by (induction s) (auto split: list.splits)

lemma split_on_space_append:
  "is_space c \<Longrightarrow> split_on_space (a @ c # b) = split_on_space a @ split_on_space b"
proof (induction a)
  case Nil
  then show ?case by simp
next
  case (Cons x xs)
  then show ?case
    using split_on_space_nonempty [of xs]
    by (cases "split_on_space xs") auto
qed

lemma tokens_append_space:
  "is_space c \<Longrightarrow> tokens (a @ c # b) = tokens a @ tokens b"
  by (simp add: tokens_def split_on_space_append)

lemma tokens_space_Cons: "is_space c \<Longrightarrow> tokens (c # s) = tokens s"
  by (simp add: tokens_def)

lemma tokens_all_space: "\<forall>c \<in> set s. is_space c \<Longrightarrow> tokens s = []"
  by (induction s) (auto simp: tokens_space_Cons, simp add: tokens_def)

lemma tokens_dropWhile: "tokens (dropWhile is_space s) = tokens s"
  by (induction s) (auto simp: tokens_space_Cons)

lemma tokens_drop_trailing: "tokens (rev (dropWhile is_space (rev s))) = tokens s"
proof -
  let ?t = "rev (takeWhile is_space (rev s))"
  let ?k = "rev (dropWhile is_space (rev s))"
  have split: "s = ?k @ ?t"
    by (metis rev_append rev_rev_ident takeWhile_dropWhile_id)
  have sp: "\<forall>c \<in> set ?t. is_space c"
    by (auto dest: set_takeWhileD)
  show ?thesis
  proof (cases ?t)
    case Nil
    with split show ?thesis by simp
  next
    case (Cons c t')
    with sp have c: "is_space c" and t': "\<forall>d \<in> set t'. is_space d"
      by auto
    have "tokens s = tokens (?k @ c # t')"
      using split Cons by simp
    also have "\<dots> = tokens ?k @ tokens t'"
      using c by (rule tokens_append_space)
    also have "\<dots> = tokens ?k"
      using t' by (simp add: tokens_all_space)
    finally show ?thesis by simp
  qed
qed

lemma tokens_trim: "tokens (trim s) = tokens s"
  by (simp add: trim_def tokens_drop_trailing tokens_dropWhile)

lemma space_is_space: "is_space 32"
  by (simp add: is_space_def)

lemma tokens_join: "tokens (join [32] ts) = concat (map tokens ts)"
proof (induction ts)
  case Nil
  then show ?case by (simp add: tokens_def)
next
  case (Cons x xs)
  show ?case
  proof (cases xs)
    case Nil
    then show ?thesis by simp
  next
    case (Cons y ys)
    have "tokens (x @ 32 # join [32] (y # ys)) = tokens x @ tokens (join [32] (y # ys))"
      by (rule tokens_append_space) (rule space_is_space)
    with Cons Cons.IH show ?thesis by simp
  qed
qed

lemma tokens_script: "tokens (trim (join [32] ts)) = concat (map tokens ts)"
  by (simp add: tokens_trim tokens_join)

lemma chunk_loop_tokens:
  "ws \<noteq> [] \<or> cur = [] \<Longrightarrow>
   concat (map (tokens \<circ> script) (chunk_loop scenes cur start ws)) =
   concat (map (tokens \<circ> script) scenes) @ concat (map tokens cur) @ concat (map (tokens \<circ> word) ws)"
proof (induction ws arbitrary: scenes cur start)
  case Nil
  then show ?case by simp
next
  case (Cons w rest)
  show ?case
  proof (cases "(SENTENCE_END_RE_test (word w) \<and> endTime w - start \<ge> TARGET_DURATION_SEC) \<or> rest = []")
    case True
    then show ?thesis
      using Cons.IH [of "[]"] by (simp add: Let_def tokens_script)
  next
    case False
    then have ne: "rest \<noteq> []" by simp
    have "chunk_loop scenes cur start (w # rest) = chunk_loop scenes (cur @ [word w]) start rest"
      using False by (auto simp: Let_def)
    then show ?thesis
      using Cons.IH [of "cur @ [word w]" scenes start] ne by simp
  qed
qed

lemma chunk_loop_length: "length scenes \<le> length (chunk_loop scenes cur start ws)"
proof (induction ws arbitrary: scenes cur start)
  case Nil
  then show ?case by simp
next
  case (Cons w rest)
  have a: "length scenes \<le> length (chunk_loop scenes (cur @ [word w]) start rest)"
    by (rule Cons.IH)
  have b: "\<And>sc st. Suc (length scenes) \<le> length (chunk_loop (scenes @ [sc]) [] st rest)"
    using Cons.IH [of "scenes @ [sc]" "[]" for sc] by simp
  from a b show ?case
    by (auto simp: Let_def dest: Suc_leD)
qed

lemma chunk_loop_emits: "ws \<noteq> [] \<Longrightarrow> length scenes < length (chunk_loop scenes cur start ws)"
proof (induction ws arbitrary: scenes cur start)
  case Nil
  then show ?case by simp
next
  case (Cons w rest)
  show ?case
  proof (cases "rest = []")
    case True
    then show ?thesis by (simp add: Let_def)
  next
    case False
    have b: "\<And>sc st. length scenes < length (chunk_loop (scenes @ [sc]) [] st rest)"
      using chunk_loop_length [of "scenes @ [sc]" "[]" _ rest for sc]
      by (simp add: Suc_le_eq)
    from False Cons.IH [OF False] b show ?thesis
      by (simp add: Let_def)
  qed
qed

lemma split_on_space_plain: "\<forall>c \<in> set w. \<not> is_space c \<Longrightarrow> split_on_space w = [w]"
  by (induction w) auto

lemma tokens_plain: "w \<noteq> [] \<Longrightarrow> \<forall>c \<in> set w. \<not> is_space c \<Longrightarrow> tokens w = [w]"
  by (simp add: tokens_def split_on_space_plain)

lemma tokens_plain_words:
  "\<forall>w \<in> set words. word w \<noteq> [] \<and> (\<forall>c \<in> set (word w). \<not> is_space c) \<Longrightarrow>
   concat (map (tokens \<circ> word) words) = map word words"
  by (induction words) (simp_all add: tokens_plain)

text \<open>
  C3. For every non-empty sequence of timed words, segmentation emits at least one
  scene, and the tokens of the scenes' texts (each text split on white space), taken in
  scene order, are the tokens of the input words, in input order. When every word is a
  single token (not empty, no white space inside), these are the input words themselves.
\<close>

theorem segmentation_preserves_tokens:
  assumes "words \<noteq> []"
  shows "runStep2_ChunkScript words \<noteq> [] \<and>
         concat (map (tokens \<circ> script) (runStep2_ChunkScript words)) =
         concat (map (tokens \<circ> word) words) \<and>
         ((\<forall>w \<in> set words. word w \<noteq> [] \<and> (\<forall>c \<in> set (word w). \<not> is_space c)) \<longrightarrow>
            concat (map (tokens \<circ> script) (runStep2_ChunkScript words)) = map word words)"
proof -
  from assms obtain w0 rest where w: "words = w0 # rest" by (cases words) auto
  have run: "runStep2_ChunkScript words = chunk_loop [] [] (startTime w0) words"
    by (simp add: runStep2_ChunkScript_def w)
  have some: "0 < length (chunk_loop [] [] (startTime w0) words)"
    using chunk_loop_emits [OF assms, of "[]"] by simp
  have same: "concat (map (tokens \<circ> script) (chunk_loop [] [] (startTime w0) words)) =
                 concat (map (tokens \<circ> word) words)"
    using chunk_loop_tokens [of words "[]" "[]"] assms by simp
  from some same run show ?thesis
    using tokens_plain_words [of words] by auto
qed

theorem segmentation_preserves_tokens_witness:
  "[\<lparr>word = str ''Hi'', startTime = 0, endTime = 1\<rparr>,
    \<lparr>word = str ''there.'', startTime = 1, endTime = 17 / 2\<rparr>] \<noteq> [] \<and>
   map script (runStep2_ChunkScript
     [\<lparr>word = str ''Hi'', startTime = 0, endTime = 1\<rparr>,
      \<lparr>word = str ''there.'', startTime = 1, endTime = 17 / 2\<rparr>]) = [str ''Hi there.''] \<and>
   concat (map (tokens \<circ> script)
     (runStep2_ChunkScript
       [\<lparr>word = str ''Hi'', startTime = 0, endTime = 1\<rparr>,
        \<lparr>word = str ''there.'', startTime = 1, endTime = 17 / 2\<rparr>])) =
     [str ''Hi'', str ''there.'']"
  using segmentation_preserves_tokens
    [of "[\<lparr>word = str ''Hi'', startTime = 0, endTime = 1\<rparr>,
          \<lparr>word = str ''there.'', startTime = 1, endTime = 17 / 2\<rparr>]"]
  by (simp add: runStep2_ChunkScript_def SENTENCE_END_RE_test_def TARGET_DURATION_SEC_def
      str_def Let_def trim_def is_space_def tokens_def)

lemma chunk_loop_numbers:
  "map scene scenes = map Suc [0..<length scenes] \<Longrightarrow>
   map scene (chunk_loop scenes cur start ws) =
   map Suc [0..<length (chunk_loop scenes cur start ws)]"
proof (induction ws arbitrary: scenes cur start)
  case Nil
  then show ?case by simp
next
  case (Cons w rest)
  let ?sc = "\<lparr>scene = Suc (length scenes), start_time_secs = start,
               end_time_secs = endTime w, script = trim (join [32] (cur @ [word w])),
               prompt = None, image_url = None\<rparr>"
  let ?next = "case rest of [] \<Rightarrow> start | w' # _ \<Rightarrow> startTime w'"
  have ext: "map scene (scenes @ [?sc]) = map Suc [0..<length (scenes @ [?sc])]"
    using Cons.prems by simp
  have stay: "map scene (chunk_loop scenes (cur @ [word w]) start rest) =
      map Suc [0..<length (chunk_loop scenes (cur @ [word w]) start rest)]"
    by (rule Cons.IH [OF Cons.prems])
  have emit: "map scene (chunk_loop (scenes @ [?sc]) [] ?next rest) =
      map Suc [0..<length (chunk_loop (scenes @ [?sc]) [] ?next rest)]"
    by (rule Cons.IH [OF ext])
  show ?case
  proof (cases "(SENTENCE_END_RE_test (word w) \<and> endTime w - start \<ge> TARGET_DURATION_SEC) \<or> rest = []")
    case True
    then have "chunk_loop scenes cur start (w # rest) = chunk_loop (scenes @ [?sc]) [] ?next rest"
      by (auto simp: Let_def)
    with emit show ?thesis by simp
  next
    case False
    then have "chunk_loop scenes cur start (w # rest) = chunk_loop scenes (cur @ [word w]) start rest"
      by (auto simp: Let_def)
    with stay show ?thesis by simp
  qed
qed

lemma chunk_loop_start_le_end:
  "sorted (map startTime ws) \<Longrightarrow>
   \<forall>w \<in> set ws. startTime w \<le> endTime w \<Longrightarrow>
   \<forall>w \<in> set ws. start \<le> startTime w \<Longrightarrow>
   \<forall>s \<in> set scenes. start_time_secs s \<le> end_time_secs s \<Longrightarrow>
   \<forall>s \<in> set (chunk_loop scenes cur start ws). start_time_secs s \<le> end_time_secs s"
proof (induction ws arbitrary: scenes cur start)
  case Nil
  then show ?case by simp
next
  case (Cons w rest)
  have srt: "sorted (map startTime rest)"
    and ord: "\<forall>v \<in> set rest. startTime v \<le> endTime v"
    and keep: "\<forall>v \<in> set rest. start \<le> startTime v"
    and cur_ok: "start \<le> endTime w"
    using Cons.prems by auto
  have stay: "\<forall>s \<in> set (chunk_loop scenes (cur @ [word w]) start rest).
      start_time_secs s \<le> end_time_secs s"
    using Cons.IH [OF srt ord keep Cons.prems(4)] .
  have emit: "\<forall>s \<in> set (chunk_loop
        (scenes @ [\<lparr>scene = Suc (length scenes), start_time_secs = start,
                     end_time_secs = endTime w, script = trim (join [32] (cur @ [word w])),
                     prompt = None, image_url = None\<rparr>])
        [] (case rest of [] \<Rightarrow> start | w' # _ \<Rightarrow> startTime w') rest).
      start_time_secs s \<le> end_time_secs s"
  proof (rule Cons.IH [OF srt ord])
    show "\<forall>v \<in> set rest. (case rest of [] \<Rightarrow> start | w' # _ \<Rightarrow> startTime w') \<le> startTime v"
      using srt by (cases rest) auto
    show "\<forall>s \<in> set (scenes @ [\<lparr>scene = Suc (length scenes), start_time_secs = start,
                     end_time_secs = endTime w, script = trim (join [32] (cur @ [word w])),
                     prompt = None, image_url = None\<rparr>]). start_time_secs s \<le> end_time_secs s"
      using Cons.prems(4) cur_ok by auto
  qed
  from stay emit show ?case
    by (simp add: Let_def)
qed

lemma chunk_loop_sorted:
  "sorted (map startTime ws) \<Longrightarrow>
   \<forall>w \<in> set ws. start \<le> startTime w \<Longrightarrow>
   sorted (map start_time_secs scenes) \<Longrightarrow>
   \<forall>s \<in> set scenes. start_time_secs s \<le> start \<Longrightarrow>
   sorted (map start_time_secs (chunk_loop scenes cur start ws))"
proof (induction ws arbitrary: scenes cur start)
  case Nil
  then show ?case by simp
next
  case (Cons w rest)
  let ?next = "case rest of [] \<Rightarrow> start | w' # _ \<Rightarrow> startTime w'"
  have srt: "sorted (map startTime rest)"
    and keep: "\<forall>v \<in> set rest. start \<le> startTime v"
    using Cons.prems by auto
  have adv: "start \<le> ?next"
    using keep by (cases rest) auto
  have stay: "sorted (map start_time_secs (chunk_loop scenes (cur @ [word w]) start rest))"
    using Cons.IH [OF srt keep Cons.prems(3) Cons.prems(4)] .
  have emit: "sorted (map start_time_secs (chunk_loop
        (scenes @ [\<lparr>scene = Suc (length scenes), start_time_secs = start,
                     end_time_secs = endTime w, script = trim (join [32] (cur @ [word w])),
                     prompt = None, image_url = None\<rparr>])
        [] ?next rest))"
  proof (rule Cons.IH [OF srt])
    show "\<forall>v \<in> set rest. ?next \<le> startTime v"
      using srt by (cases rest) auto
    show "sorted (map start_time_secs (scenes @ [\<lparr>scene = Suc (length scenes),
            start_time_secs = start, end_time_secs = endTime w,
            script = trim (join [32] (cur @ [word w])), prompt = None, image_url = None\<rparr>]))"
      using Cons.prems(3) Cons.prems(4) by (auto simp: sorted_append)
    show "\<forall>s \<in> set (scenes @ [\<lparr>scene = Suc (length scenes), start_time_secs = start,
            end_time_secs = endTime w, script = trim (join [32] (cur @ [word w])),
            prompt = None, image_url = None\<rparr>]). start_time_secs s \<le> ?next"
      using Cons.prems(4) adv by auto
  qed
  from stay emit show ?case
    by (simp add: Let_def)
qed

text \<open>
  C9. When the words are in temporal order (start times do not decrease along the
  sequence) and no word starts after it ends, every emitted scene has
  \<open>start_time_secs \<le> end_time_secs\<close>, the k-th scene carries the number k, and the
  scenes' start times do not decrease.
\<close>

theorem segmentation_scene_invariants:
  assumes "sorted (map startTime words)"
    and "\<forall>w \<in> set words. startTime w \<le> endTime w"
  shows "(\<forall>s \<in> set (runStep2_ChunkScript words). start_time_secs s \<le> end_time_secs s) \<and>
         map scene (runStep2_ChunkScript words) =
           [1..<Suc (length (runStep2_ChunkScript words))] \<and>
         sorted (map start_time_secs (runStep2_ChunkScript words))"
proof (cases words)
  case Nil
  then show ?thesis by (simp add: runStep2_ChunkScript_def)
next
  case (Cons w0 rest)
  then have run: "runStep2_ChunkScript words = chunk_loop [] [] (startTime w0) words"
    by (simp add: runStep2_ChunkScript_def)
  have first: "\<forall>w \<in> set words. startTime w0 \<le> startTime w"
    using assms(1) Cons by auto
  have "\<forall>s \<in> set (chunk_loop [] [] (startTime w0) words). start_time_secs s \<le> end_time_secs s"
    using chunk_loop_start_le_end [OF assms(1) assms(2) first, of "[]" "[]"] by simp
  moreover have "map scene (chunk_loop [] [] (startTime w0) words) =
      [1..<Suc (length (chunk_loop [] [] (startTime w0) words))]"
    using chunk_loop_numbers [of "[]" "[]" "startTime w0" words]
    by (simp only: map_Suc_upt list.map upt_0 list.size One_nat_def)
  moreover have "sorted (map start_time_secs (chunk_loop [] [] (startTime w0) words))"
    using chunk_loop_sorted [OF assms(1) first, of "[]" "[]"] by simp
  ultimately show ?thesis using run by simp
qed

theorem segmentation_scene_invariants_witness:
  "sorted (map startTime
     [\<lparr>word = str ''One.'', startTime = 0, endTime = 8\<rparr>,
      \<lparr>word = str ''Two'', startTime = 8, endTime = 9\<rparr>]) \<and>
   map scene (runStep2_ChunkScript
     [\<lparr>word = str ''One.'', startTime = 0, endTime = 8\<rparr>,
      \<lparr>word = str ''Two'', startTime = 8, endTime = 9\<rparr>]) = [1, 2] \<and>
   map start_time_secs (runStep2_ChunkScript
     [\<lparr>word = str ''One.'', startTime = 0, endTime = 8\<rparr>,
      \<lparr>word = str ''Two'', startTime = 8, endTime = 9\<rparr>]) = [0, 8] \<and>
   map end_time_secs (runStep2_ChunkScript
     [\<lparr>word = str ''One.'', startTime = 0, endTime = 8\<rparr>,
      \<lparr>word = str ''Two'', startTime = 8, endTime = 9\<rparr>]) = [8, 9] \<and>
   sorted (map start_time_secs (runStep2_ChunkScript
     [\<lparr>word = str ''One.'', startTime = 0, endTime = 8\<rparr>,
      \<lparr>word = str ''Two'', startTime = 8, endTime = 9\<rparr>]))"
  using segmentation_scene_invariants
    [of "[\<lparr>word = str ''One.'', startTime = 0, endTime = 8\<rparr>,
          \<lparr>word = str ''Two'', startTime = 8, endTime = 9\<rparr>]"]
  by (simp add: runStep2_ChunkScript_def SENTENCE_END_RE_test_def TARGET_DURATION_SEC_def
      str_def Let_def)

section \<open>Evaluation helpers\<close>

lemma decimal_small: "n < 10 \<Longrightarrow> decimal n = [48 + n]"
  by (subst decimal.simps) simp

lemma decimal_two_digits:
  "10 \<le> n \<Longrightarrow> n < 100 \<Longrightarrow> decimal n = [48 + n div 10, 48 + n mod 10]"
  by (subst decimal.simps) (simp add: decimal_small)

lemma padStart3_one: "length s = 1 \<Longrightarrow> padStart3 s = 48 # 48 # s"
  by (simp add: padStart3_def numeral_2_eq_2)

lemma padStart3_two: "length s = 2 \<Longrightarrow> padStart3 s = 48 # s"
  by (simp add: padStart3_def)

lemmas run_defs =
  str_def quoted_def Let_def or_default_def Error_def message_text_def
  is_space_def trim_def startsWith_def endsWith_def
  SENTENCE_END_RE_test_def TARGET_DURATION_SEC_def runStep2_ChunkScript_def
  nullish_or_def id_candidate_def parseInt_digits_def is_digit_def digits_value_def
  number_of_nat_def isFinite_def
  fence_at_def is_json_tag_def extractPossibleJSON_def plain_quote_def removeTrailingCommas_def
  parseModelJSON_def ends_with_ratio_def promptFinal_def pRaw_of_def build_promptMap_def
  placeholder_prompt_def apply_prompts_def scene_line_def is_truthy_prop_def
  runStep3_AnalyzeAndGeneratePrompts_def
  path_join_def inside_def rm_recursive_def lastIndexOf_def is_lower_alnum_def
  strip_edge_dashes_def getJobId_def runStep1_Transcribe_def
  generate_scene_image_def runStep4_GenerateImages_def
  assertFfmpeg_def sample_toFixed3_def finish_manifest_def build_manifest_def step5_try_def
  TEMP_DIR_of_def runStep5_CreateVideo_def storyboard_try_def generateStoryboard_def
  fenced_example_def plain_example_def sample_reply_def sample_reply_value_def
  sample_JSON_parse_def sample_url_pathname_def sample_basename_def sample_words_def
  sample_env_def sample_scenes_def
  decimal_small decimal_two_digits padStart3_one padStart3_two

section \<open>Properties of identifier extraction\<close>

lemma number_of_nat_cases:
  "number_of_nat n = PosInfinity \<or> (\<exists>k. number_of_nat n = Finite (real k))"
  unfolding number_of_nat_def Let_def by (simp only: split: if_split) blast

lemma coerceSceneId_string:
  "coerceSceneId (JString s) = None \<or> (\<exists>k. coerceSceneId (JString s) = Some (Finite (real k)))"
  using number_of_nat_cases [of "digits_value (filter is_digit s)"]
  by (auto simp: parseInt_digits_def isFinite_def Let_def)

lemma coerceSceneId_no_digit: "filter is_digit s = [] \<Longrightarrow> coerceSceneId (JString s) = None"
  by (simp add: parseInt_digits_def isFinite_def)

lemma coerceSceneId_finite: "coerceSceneId v = Some n \<Longrightarrow> isFinite n"
  by (cases v) (auto simp: Let_def split: if_splits)

lemma extractSceneId_finite: "extractSceneId r = Some n \<Longrightarrow> isFinite n"
  by (cases r) (auto dest: coerceSceneId_finite)

lemma nullish_or_if: "nullish_or a b = (if is_nullish a then b else a)"
  by (auto simp: nullish_or_def is_nullish_def split: option.splits json.splits)

lemma id_candidate_priority:
  "id_candidate obj =
     (case find (\<lambda>k. \<not> is_nullish (get_prop obj k)) id_fields of
        None \<Rightarrow> JNull
      | Some k \<Rightarrow> (case get_prop obj k of None \<Rightarrow> JNull | Some v \<Rightarrow> v))"
  by (simp add: id_candidate_def id_fields_def nullish_or_if)

theorem extractSceneId_positive_counterexample:
  "extractSceneId (JObject [(str ''scene_id'', JString (str ''scene_0''))]) = Some (Finite 0) \<and>
   \<not> is_positive_integer (Finite 0) \<and>
   extractSceneId (JObject [(str ''id'', JNumber (Finite (- 3 / 2)))]) = Some (Finite (- 3 / 2)) \<and>
   \<not> is_positive_integer (Finite (- 3 / 2))"
  by (simp add: run_defs is_positive_integer_def)

text \<open>
  C4 (as amended). For every record of the model, identifier extraction yields a finite
  number or "no identifier", never an error. The candidate is the value of the first of
  the fields \<open>scene_id\<close>, \<open>scene\<close>, \<open>id\<close>, \<open>index\<close> that is neither absent nor
  \<open>null\<close>. A numeric candidate is returned as it is when finite (zero, negative and
  fractional values included). A string candidate has every non-digit character
  stripped; no digit left yields "no identifier", otherwise the result is the
  non-negative integer that the digits denote (zero included; "no identifier" when that
  value is not finite). Any other candidate, and any value that is not an object, yields
  "no identifier".
\<close>

theorem extractSceneId_finite_or_absent:
  "(case extractSceneId r of None \<Rightarrow> True | Some n \<Rightarrow> isFinite n) \<and>
   id_candidate r =
     (case find (\<lambda>k. \<not> is_nullish (get_prop r k)) id_fields of
        None \<Rightarrow> JNull
      | Some k \<Rightarrow> (case get_prop r k of None \<Rightarrow> JNull | Some v \<Rightarrow> v)) \<and>
   ((\<exists>props. r = JObject props) \<longrightarrow>
      (case id_candidate r of
         JNumber n \<Rightarrow> extractSceneId r = (if isFinite n then Some n else None)
       | JString s \<Rightarrow>
           (filter is_digit s = [] \<longrightarrow> extractSceneId r = None) \<and>
           (filter is_digit s \<noteq> [] \<longrightarrow>
              extractSceneId r =
                (case number_of_nat (digits_value (filter is_digit s)) of
                   Finite x \<Rightarrow> Some (Finite x)
                 | _ \<Rightarrow> None)) \<and>
           (extractSceneId r = None \<or> (\<exists>k. extractSceneId r = Some (Finite (real k))))
       | _ \<Rightarrow> extractSceneId r = None)) \<and>
   ((\<forall>props. r \<noteq> JObject props) \<longrightarrow> extractSceneId r = None)"
proof (intro conjI)
  show "case extractSceneId r of None \<Rightarrow> True | Some n \<Rightarrow> isFinite n"
    by (auto split: option.splits dest: extractSceneId_finite)
  show "id_candidate r =
     (case find (\<lambda>k. \<not> is_nullish (get_prop r k)) id_fields of
        None \<Rightarrow> JNull
      | Some k \<Rightarrow> (case get_prop r k of None \<Rightarrow> JNull | Some v \<Rightarrow> v))"
    by (rule id_candidate_priority)
  show "(\<forall>props. r \<noteq> JObject props) \<longrightarrow> extractSceneId r = None"
    by (cases r) (simp_all add: id_candidate_def nullish_or_def)
  show "(\<exists>props. r = JObject props) \<longrightarrow>
      (case id_candidate r of
         JNumber n \<Rightarrow> extractSceneId r = (if isFinite n then Some n else None)
       | JString s \<Rightarrow>
           (filter is_digit s = [] \<longrightarrow> extractSceneId r = None) \<and>
           (filter is_digit s \<noteq> [] \<longrightarrow>
              extractSceneId r =
                (case number_of_nat (digits_value (filter is_digit s)) of
                   Finite x \<Rightarrow> Some (Finite x)
                 | _ \<Rightarrow> None)) \<and>
           (extractSceneId r = None \<or> (\<exists>k. extractSceneId r = Some (Finite (real k))))
       | _ \<Rightarrow> extractSceneId r = None)"
  proof
    assume "\<exists>props. r = JObject props"
    then obtain props where r: "r = JObject props" by blast
    then have e: "extractSceneId r = coerceSceneId (id_candidate r)" by simp
    show "case id_candidate r of
         JNumber n \<Rightarrow> extractSceneId r = (if isFinite n then Some n else None)
       | JString s \<Rightarrow>
           (filter is_digit s = [] \<longrightarrow> extractSceneId r = None) \<and>
           (filter is_digit s \<noteq> [] \<longrightarrow>
              extractSceneId r =
                (case number_of_nat (digits_value (filter is_digit s)) of
                   Finite x \<Rightarrow> Some (Finite x)
                 | _ \<Rightarrow> None)) \<and>
           (extractSceneId r = None \<or> (\<exists>k. extractSceneId r = Some (Finite (real k))))
       | _ \<Rightarrow> extractSceneId r = None"
    proof (cases "id_candidate r")
      case (JString s)
      have a: "filter is_digit s = [] \<longrightarrow> coerceSceneId (JString s) = None"
        using coerceSceneId_no_digit by blast
      have b: "filter is_digit s \<noteq> [] \<longrightarrow>
          coerceSceneId (JString s) =
            (case number_of_nat (digits_value (filter is_digit s)) of
               Finite x \<Rightarrow> Some (Finite x)
             | _ \<Rightarrow> None)"
        by (simp add: parseInt_digits_def isFinite_def split: jsnumber.splits)
      from a b coerceSceneId_string [of s] show ?thesis
        by (simp only: e JString json.case)
    qed (simp_all add: e)
  qed
qed

theorem extractSceneId_finite_or_absent_witness:
  "extractSceneId
     (JObject [(str ''prompt'', JString (str ''x'')), (str ''scene'', JNull),
               (str ''index'', JString (str ''scene_12''))]) = Some (Finite 12) \<and>
   id_candidate
     (JObject [(str ''prompt'', JString (str ''x'')), (str ''scene'', JNull),
               (str ''index'', JString (str ''scene_12''))]) = JString (str ''scene_12'') \<and>
   extractSceneId (JObject [(str ''scene_id'', JString (str ''x''))]) = None \<and>
   extractSceneId (JString (str ''7'')) = None"
  using extractSceneId_finite_or_absent
    [of "JObject [(str ''prompt'', JString (str ''x'')), (str ''scene'', JNull),
                  (str ''index'', JString (str ''scene_12''))]"]
  by (simp add: run_defs)

section \<open>Properties of reconciliation\<close>

lemma pRaw_of_not_null: "r \<noteq> JNull \<Longrightarrow> pRaw_of r = Inr (pRaw_text r)"
  by (cases r) (auto simp: pRaw_of_def pRaw_text_def split: option.splits json.splits)

lemma pRaw_of_null: "pRaw_of JNull = Inl (Error (str ''Cannot read properties of null''))"
  by (simp add: pRaw_of_def)

lemma id_pass_null: "JNull \<in> set rs \<Longrightarrow> \<exists>e. id_pass m rs = Inl e"
proof (induction rs arbitrary: m)
  case Nil
  then show ?case by simp
next
  case (Cons r rs)
  show ?case
  proof (cases "r = JNull")
    case True
    then show ?thesis by (simp add: pRaw_of_null)
  next
    case False
    with Cons.prems have "JNull \<in> set rs" by simp
    from Cons.IH [OF this] False show ?thesis
      by (simp add: pRaw_of_not_null Let_def split: option.splits)
  qed
qed

lemma id_pass_ok:
  "JNull \<notin> set rs \<Longrightarrow>
   \<exists>m'. id_pass m rs = Inr m' \<and>
     (m' = Map.empty \<longleftrightarrow> m = Map.empty \<and> (\<forall>r \<in> set rs. \<not> usable_record r))"
proof (induction rs arbitrary: m)
  case Nil
  then show ?case by simp
next
  case (Cons r rs)
  then have nn: "r \<noteq> JNull" and rest: "JNull \<notin> set rs" by auto
  show ?case
  proof (cases "usable_record r")
    case True
    then obtain n where n: "extractSceneId r = Some n" "truthy (JNumber n)" "pRaw_text r \<noteq> []"
      by (auto simp: usable_record_def split: option.splits)
    then have step: "id_pass m (r # rs) = id_pass (m(n \<mapsto> promptFinal (pRaw_text r))) rs"
      using nn by (simp add: pRaw_of_not_null)
    from Cons.IH [OF rest, of "m(n \<mapsto> promptFinal (pRaw_text r))"] obtain m' where
      m': "id_pass (m(n \<mapsto> promptFinal (pRaw_text r))) rs = Inr m'"
      and e: "m' = Map.empty \<longleftrightarrow>
        m(n \<mapsto> promptFinal (pRaw_text r)) = Map.empty \<and> (\<forall>r \<in> set rs. \<not> usable_record r)"
      by blast
    from e have "m' \<noteq> Map.empty" by simp
    moreover have "\<not> (\<forall>x \<in> set (r # rs). \<not> usable_record x)" using True by simp
    ultimately have "id_pass m (r # rs) = Inr m' \<and>
      (m' = Map.empty \<longleftrightarrow> m = Map.empty \<and> (\<forall>x \<in> set (r # rs). \<not> usable_record x))"
      using step m' by (simp only: simp_thms)
    then show ?thesis by blast
  next
    case False
    then have step: "id_pass m (r # rs) = id_pass m rs"
      using nn by (auto simp: pRaw_of_not_null usable_record_def split: option.splits)
    from Cons.IH [OF rest, of m] obtain m' where
      m': "id_pass m rs = Inr m'"
      and e: "m' = Map.empty \<longleftrightarrow> m = Map.empty \<and> (\<forall>r \<in> set rs. \<not> usable_record r)"
      by blast
    have "(\<forall>x \<in> set (r # rs). \<not> usable_record x) \<longleftrightarrow> (\<forall>x \<in> set rs. \<not> usable_record x)"
      using False by simp
    with e have "id_pass m (r # rs) = Inr m' \<and>
      (m' = Map.empty \<longleftrightarrow> m = Map.empty \<and> (\<forall>x \<in> set (r # rs). \<not> usable_record x))"
      using step m' by (simp only: simp_thms)
    then show ?thesis by blast
  qed
qed

lemma positional_pass_ok:
  "JNull \<notin> set rs \<Longrightarrow>
   \<exists>m'. positional_pass m idx rs = Inr m' \<and>
     (\<forall>i < length rs. m' (Finite (real (idx + i + 1))) =
        (if pRaw_text (rs ! i) = [] then m (Finite (real (idx + i + 1)))
         else Some (promptFinal (pRaw_text (rs ! i))))) \<and>
     (\<forall>k. (\<forall>i < length rs. k \<noteq> Finite (real (idx + i + 1))) \<longrightarrow> m' k = m k)"
proof (induction rs arbitrary: m idx)
  case Nil
  then show ?case by simp
next
  case (Cons r rs)
  then have nn: "r \<noteq> JNull" and rest: "JNull \<notin> set rs" by auto
  define m1 where
    "m1 = (if pRaw_text r = [] then m
           else m(Finite (real (idx + 1)) \<mapsto> promptFinal (pRaw_text r)))"
  have step: "positional_pass m idx (r # rs) = positional_pass m1 (idx + 1) rs"
    using nn by (simp add: pRaw_of_not_null m1_def)
  from Cons.IH [OF rest, of m1 "idx + 1"] obtain m' where
    m': "positional_pass m1 (idx + 1) rs = Inr m'"
    and at: "\<And>i. i < length rs \<Longrightarrow> m' (Finite (real (idx + 1 + i + 1))) =
        (if pRaw_text (rs ! i) = [] then m1 (Finite (real (idx + 1 + i + 1)))
         else Some (promptFinal (pRaw_text (rs ! i))))"
    and frame: "\<And>k. (\<forall>i < length rs. k \<noteq> Finite (real (idx + 1 + i + 1))) \<Longrightarrow> m' k = m1 k"
    by blast
  have m1_other: "\<And>j. j \<noteq> idx + 1 \<Longrightarrow> m1 (Finite (real j)) = m (Finite (real j))"
    by (simp add: m1_def)
  have first: "m' (Finite (real (idx + 0 + 1))) =
      (if pRaw_text r = [] then m (Finite (real (idx + 0 + 1)))
       else Some (promptFinal (pRaw_text r)))"
  proof -
    have "m' (Finite (real (idx + 1))) = m1 (Finite (real (idx + 1)))"
      by (rule frame) simp
    then show ?thesis by (simp add: m1_def)
  qed
  have later: "\<And>j. j < length rs \<Longrightarrow> m' (Finite (real (idx + Suc j + 1))) =
      (if pRaw_text (rs ! j) = [] then m (Finite (real (idx + Suc j + 1)))
       else Some (promptFinal (pRaw_text (rs ! j))))"
  proof -
    fix j assume j: "j < length rs"
    have "m1 (Finite (real (idx + Suc j + 1))) = m (Finite (real (idx + Suc j + 1)))"
      by (rule m1_other) simp
    with at [OF j] show "m' (Finite (real (idx + Suc j + 1))) =
      (if pRaw_text (rs ! j) = [] then m (Finite (real (idx + Suc j + 1)))
       else Some (promptFinal (pRaw_text (rs ! j))))"
      by (simp add: add.commute add.left_commute)
  qed
  have all: "\<forall>i < length (r # rs). m' (Finite (real (idx + i + 1))) =
        (if pRaw_text ((r # rs) ! i) = [] then m (Finite (real (idx + i + 1)))
         else Some (promptFinal (pRaw_text ((r # rs) ! i))))"
  proof (intro allI impI)
    fix i assume "i < length (r # rs)"
    then show "m' (Finite (real (idx + i + 1))) =
        (if pRaw_text ((r # rs) ! i) = [] then m (Finite (real (idx + i + 1)))
         else Some (promptFinal (pRaw_text ((r # rs) ! i))))"
      using first later by (cases i) auto
  qed
  have fr: "\<forall>k. (\<forall>i < length (r # rs). k \<noteq> Finite (real (idx + i + 1))) \<longrightarrow> m' k = m k"
  proof (intro allI impI)
    fix k assume k: "\<forall>i < length (r # rs). k \<noteq> Finite (real (idx + i + 1))"
    have k0: "k \<noteq> Finite (real (idx + 1))"
      using k by (metis add.right_neutral length_greater_0_conv list.distinct(1))
    have "\<forall>i < length rs. k \<noteq> Finite (real (idx + 1 + i + 1))"
    proof (intro allI impI)
      fix i assume "i < length rs"
      then have "Suc i < length (r # rs)" by simp
      with k have "k \<noteq> Finite (real (idx + Suc i + 1))" by blast
      then show "k \<noteq> Finite (real (idx + 1 + i + 1))"
        by (simp add: add.commute add.left_commute)
    qed
    then have "m' k = m1 k" by (rule frame)
    also have "m1 k = m k" using k0 by (auto simp: m1_def)
    finally show "m' k = m k" .
  qed
  from step m' all fr show ?case by auto
qed

theorem positional_fallback_counterexample:
  "extractSceneId (JObject [(str ''scene_id'', JString (str ''1'')),
                            (str ''prompt'', JString [])]) = Some (Finite 1) \<and>
   id_pass Map.empty
     [JObject [(str ''scene_id'', JString (str ''1'')), (str ''prompt'', JString [])],
      JObject [(str ''prompt'', JString (str ''B''))]] = Inr Map.empty \<and>
   build_promptMap
     [JObject [(str ''scene_id'', JString (str ''1'')), (str ''prompt'', JString [])],
      JObject [(str ''prompt'', JString (str ''B''))]] =
     Inr (Map.empty(Finite 2 \<mapsto> str ''B. 16:9.'')) \<and>
   extractSceneId (JObject [(str ''scene_id'', JNumber (Finite 0)),
                            (str ''prompt'', JString (str ''A''))]) = Some (Finite 0) \<and>
   build_promptMap
     [JObject [(str ''scene_id'', JNumber (Finite 0)), (str ''prompt'', JString (str ''A''))]] =
     Inr (Map.empty(Finite 1 \<mapsto> str ''A. 16:9.''))"
  by (simp add: run_defs)

text \<open>
  C5 (as amended). Reconciliation applies positional assignment exactly when the
  identifier pass leaves the map empty, that is when no record has both a recovered
  identifier other than zero and a non-empty trimmed prompt; zero recoverable
  identifiers is one such case. Then the i-th record (counted from 1, in the order of
  the reply) with a non-empty prompt is assigned to scene number i, whatever its own
  identifier fields hold, and nothing else is assigned. As soon as one record has a
  usable identifier and a prompt, the identifier-based map is used. A \<open>null\<close> record
  makes the stage throw.
\<close>

theorem prompt_map_fallback:
  "(JNull \<in> set records \<longrightarrow> (\<exists>e. build_promptMap records = Inl e)) \<and>
   (JNull \<notin> set records \<longrightarrow>
      (\<exists>m. build_promptMap records = Inr m) \<and>
      ((\<exists>r \<in> set records. usable_record r) \<longrightarrow>
         build_promptMap records = id_pass Map.empty records) \<and>
      ((\<forall>r \<in> set records. \<not> usable_record r) \<longrightarrow>
         build_promptMap records = positional_pass Map.empty 0 records \<and>
         (\<exists>m. build_promptMap records = Inr m \<and>
            (\<forall>i < length records.
               m (Finite (real (i + 1))) =
                 (if pRaw_text (records ! i) = [] then None
                  else Some (promptFinal (pRaw_text (records ! i))))) \<and>
            (\<forall>k. (\<forall>i < length records. k \<noteq> Finite (real (i + 1))) \<longrightarrow> m k = None))))"
proof (intro conjI impI)
  assume "JNull \<in> set records"
  from id_pass_null [OF this, of Map.empty] show "\<exists>e. build_promptMap records = Inl e"
    by (auto simp: build_promptMap_def)
next
  assume nn: "JNull \<notin> set records"
  from id_pass_ok [OF nn, of Map.empty] obtain mi where
    mi: "id_pass Map.empty records = Inr mi"
    and e: "mi = Map.empty \<longleftrightarrow> (\<forall>r \<in> set records. \<not> usable_record r)"
    by auto
  from positional_pass_ok [OF nn, of Map.empty 0] obtain mp where
    mp: "positional_pass Map.empty 0 records = Inr mp"
    and at: "\<forall>i < length records. mp (Finite (real (i + 1))) =
        (if pRaw_text (records ! i) = [] then None
         else Some (promptFinal (pRaw_text (records ! i))))"
    and frame: "\<forall>k. (\<forall>i < length records. k \<noteq> Finite (real (i + 1))) \<longrightarrow> mp k = None"
    by auto
  show "\<exists>m. build_promptMap records = Inr m"
    using mi mp by (simp add: build_promptMap_def)
  {
    assume "\<exists>r \<in> set records. usable_record r"
    with e have "mi \<noteq> Map.empty" by blast
    with mi show "build_promptMap records = id_pass Map.empty records"
      by (simp add: build_promptMap_def)
  }
  {
    assume "\<forall>r \<in> set records. \<not> usable_record r"
    with e have "mi = Map.empty" by blast
    with mi have b: "build_promptMap records = positional_pass Map.empty 0 records"
      by (simp add: build_promptMap_def)
    then show "build_promptMap records = positional_pass Map.empty 0 records" .
    from b mp at frame show "\<exists>m. build_promptMap records = Inr m \<and>
            (\<forall>i < length records.
               m (Finite (real (i + 1))) =
                 (if pRaw_text (records ! i) = [] then None
                  else Some (promptFinal (pRaw_text (records ! i))))) \<and>
            (\<forall>k. (\<forall>i < length records. k \<noteq> Finite (real (i + 1))) \<longrightarrow> m k = None)"
      by simp
  }
qed

theorem prompt_map_fallback_witness:
  "build_promptMap
     [JObject [(str ''id'', JString (str ''x'')), (str ''prompt'', JString (str ''A''))],
      JObject [(str ''prompt'', JString (str ''B. 16:9''))]] =
     positional_pass Map.empty 0
       [JObject [(str ''id'', JString (str ''x'')), (str ''prompt'', JString (str ''A''))],
        JObject [(str ''prompt'', JString (str ''B. 16:9''))]] \<and>
   build_promptMap
     [JObject [(str ''id'', JString (str ''x'')), (str ''prompt'', JString (str ''A''))],
      JObject [(str ''prompt'', JString (str ''B. 16:9''))]] =
     Inr (Map.empty(Finite 1 \<mapsto> str ''A. 16:9.'', Finite 2 \<mapsto> str ''B. 16:9'')) \<and>
   build_promptMap
     [JObject [(str ''scene_id'', JString (str ''2'')), (str ''prompt'', JString (str ''A''))],
      JObject [(str ''scene'', JString (str ''scene_1'')), (str ''prompt'', JString (str ''B''))],
      JObject [(str ''id'', JString (str ''x'')), (str ''prompt'', JString (str ''C''))]] =
     Inr (Map.empty(Finite 2 \<mapsto> str ''A. 16:9.'', Finite 1 \<mapsto> str ''B. 16:9.''))"
  using prompt_map_fallback
    [of "[JObject [(str ''id'', JString (str ''x'')), (str ''prompt'', JString (str ''A''))],
          JObject [(str ''prompt'', JString (str ''B. 16:9''))]]"]
  by (simp add: run_defs)

section \<open>Properties of the reply parser\<close>

lemma take_covered: "n \<le> length xs \<Longrightarrow> take n (xs @ ys) = take n xs"
  by simp

lemma startsWith_three: "startsWith s [a, b, c] \<longleftrightarrow> take 3 s = [a, b, c]"
  by (simp add: startsWith_def numeral_3_eq_3)

lemma until_fence_body:
  "\<forall>i < length body. take 3 (drop i (body @ [96, 96, 96])) \<noteq> [96, 96, 96] \<Longrightarrow>
   until_fence (body @ [96, 96, 96] @ rest) = Some body"
proof (induction body)
  case Nil
  then show ?case by (simp add: startsWith_def)
next
  case (Cons c cs)
  from Cons.prems have head: "take 3 ((c # cs) @ [96, 96, 96]) \<noteq> [96, 96, 96]"
    by (metis drop0 length_greater_0_conv list.distinct(1))
  have "\<forall>i < length cs. take 3 (drop i (cs @ [96, 96, 96])) \<noteq> [96, 96, 96]"
  proof (intro allI impI)
    fix i assume "i < length cs"
    then have "Suc i < length (c # cs)" by simp
    with Cons.prems have "take 3 (drop (Suc i) ((c # cs) @ [96, 96, 96])) \<noteq> [96, 96, 96]"
      by blast
    then show "take 3 (drop i (cs @ [96, 96, 96])) \<noteq> [96, 96, 96]" by simp
  qed
  from Cons.IH [OF this] have ih: "until_fence (cs @ [96, 96, 96] @ rest) = Some cs" .
  have "take 3 (((c # cs) @ [96, 96, 96]) @ rest) = take 3 ((c # cs) @ [96, 96, 96])"
    by (rule take_covered) simp
  with head have "take 3 ((c # cs) @ [96, 96, 96] @ rest) \<noteq> [96, 96, 96]"
    by (metis append.assoc)
  then have "\<not> startsWith ((c # cs) @ [96, 96, 96] @ rest) [96, 96, 96]"
    by (simp only: startsWith_three) simp
  with ih show ?case by simp
qed

lemma fence_json_tagged:
  "\<forall>i < length body. take 3 (drop i (body @ [96, 96, 96])) \<noteq> [96, 96, 96] \<Longrightarrow>
   fence_at ([96, 96, 96] @ str ''json'' @ [10] @ body @ [96, 96, 96] @ rest) = Some body"
  using until_fence_body [of body rest]
  by (simp add: fence_at_def startsWith_def is_json_tag_def str_def)

lemma fence_untagged:
  "\<forall>i < length body. take 3 (drop i (body @ [96, 96, 96])) \<noteq> [96, 96, 96] \<Longrightarrow>
   fence_at ([96, 96, 96] @ [10] @ body @ [96, 96, 96] @ rest) = Some body"
  using until_fence_body [of body rest]
  by (simp add: fence_at_def startsWith_def is_json_tag_def)

lemma removeTrailingCommas_no_smart_quote:
  "c \<in> set (removeTrailingCommas s) \<Longrightarrow> c \<noteq> 8220 \<and> c \<noteq> 8221 \<and> c \<noteq> 8216 \<and> c \<noteq> 8217"
  by (auto simp: removeTrailingCommas_def plain_quote_def split: if_splits)

lemma strip_commas_trailing:
  "44 \<notin> set a \<Longrightarrow> \<forall>c \<in> set ws. is_space c \<Longrightarrow> b = 125 \<or> b = 93 \<Longrightarrow>
   strip_commas (a @ [44] @ ws @ [b] @ rest) = a @ [b] @ strip_commas rest"
proof (induction a)
  case Nil
  have "\<not> is_space b" using Nil.prems(3) by (auto simp: is_space_def)
  then have "dropWhile is_space (ws @ b # rest) = b # rest"
    using Nil.prems(2) by (simp add: dropWhile_append3)
  then show ?case using Nil.prems(3) by auto
next
  case (Cons c cs)
  then show ?case by simp
qed

lemma comma_not_space: "\<not> is_space 44"
  by (simp add: is_space_def)

lemma closer_not_space: "b = 125 \<or> b = 93 \<Longrightarrow> \<not> is_space b"
  by (auto simp: is_space_def)

lemma strip_commas_other: "c \<noteq> 44 \<Longrightarrow> strip_commas (c # s) = c # strip_commas s"
  by simp

lemma strip_commas_removed:
  "\<forall>c \<in> set ws. is_space c \<Longrightarrow> b = 125 \<or> b = 93 \<Longrightarrow>
   strip_commas (44 # ws @ b # tail) = b # strip_commas tail"
proof -
  assume ws: "\<forall>c \<in> set ws. is_space c" and b: "b = 125 \<or> b = 93"
  have "dropWhile is_space (ws @ b # tail) = b # tail"
    using ws closer_not_space [OF b] by (simp add: dropWhile_append3)
  then show ?thesis using b by auto
qed

lemma strip_commas_comma:
  "strip_commas (44 # cs) =
     (case dropWhile is_space cs of
        [] \<Rightarrow> 44 # strip_commas cs
      | b # tail \<Rightarrow> if b = 125 \<or> b = 93 then b # strip_commas tail else 44 # strip_commas cs)"
  by simp

lemma strip_commas_kept:
  assumes "\<not> (\<exists>ws b tail. s = ws @ b # tail \<and> (\<forall>c \<in> set ws. is_space c) \<and> (b = 125 \<or> b = 93))"
  shows "strip_commas (44 # s) = 44 # strip_commas s"
proof (cases "dropWhile is_space s")
  case Nil
  show ?thesis unfolding strip_commas_comma Nil by simp
next
  case (Cons b tail)
  have "s = takeWhile is_space s @ b # tail"
    using Cons by (metis takeWhile_dropWhile_id)
  moreover have "\<forall>c \<in> set (takeWhile is_space s). is_space c"
    by (auto dest: set_takeWhileD)
  ultimately have "\<not> (b = 125 \<or> b = 93)"
    using assms by blast
  then show ?thesis unfolding strip_commas_comma Cons by simp
qed

lemma strip_commas_before_comma:
  "strip_commas (a @ 44 # t) = strip_commas a @ strip_commas (44 # t)"
proof (induction a rule: strip_commas.induct)
  case 1
  show ?case by (simp only: strip_commas.simps(1) append_Nil)
next
  case (2 c cs)
  show ?case
  proof (cases "c = 44")
    case False
    from 2(4) [OF False] have ih: "strip_commas (cs @ 44 # t) = strip_commas cs @ strip_commas (44 # t)" .
    have "strip_commas ((c # cs) @ 44 # t) = c # strip_commas (cs @ 44 # t)"
      using False by simp
    also have "\<dots> = c # strip_commas cs @ strip_commas (44 # t)"
      by (simp only: ih)
    also have "\<dots> = strip_commas (c # cs) @ strip_commas (44 # t)"
      using False by simp
    finally show ?thesis .
  next
    case True
    show ?thesis
    proof (cases "dropWhile is_space cs")
      case Nil
      then have all: "\<forall>x \<in> set cs. is_space x"
        by (metis dropWhile_eq_Nil_conv)
      then have d: "dropWhile is_space (cs @ 44 # t) = 44 # t"
        using comma_not_space by (simp add: dropWhile_append3)
      from 2(1) [OF True Nil]
      have ih: "strip_commas (cs @ 44 # t) = strip_commas cs @ strip_commas (44 # t)" .
      have "strip_commas ((44 # cs) @ 44 # t) = 44 # strip_commas (cs @ 44 # t)"
        unfolding append_Cons strip_commas_comma [of "cs @ 44 # t"] d by simp
      also have "\<dots> = (44 # strip_commas cs) @ strip_commas (44 # t)"
        by (simp only: ih append_Cons)
      also have "44 # strip_commas cs = strip_commas (44 # cs)"
        unfolding strip_commas_comma [of cs] Nil by simp
      finally show ?thesis using True by (simp only:)
    next
      case (Cons b tail)
      then have "\<not> (\<forall>x \<in> set cs. is_space x)"
        by (metis dropWhile_eq_Nil_conv list.distinct(1))
      then obtain x where "x \<in> set cs" and "\<not> is_space x" by blast
      then have "dropWhile is_space (cs @ 44 # t) = dropWhile is_space cs @ 44 # t"
        by (rule dropWhile_append1)
      then have d: "dropWhile is_space (cs @ 44 # t) = b # (tail @ 44 # t)"
        by (simp only: Cons append_Cons)
      show ?thesis
      proof (cases "b = 125 \<or> b = 93")
        case closer: True
        from 2(2) [OF True Cons closer]
        have ih: "strip_commas (tail @ 44 # t) = strip_commas tail @ strip_commas (44 # t)" .
        have "strip_commas ((44 # cs) @ 44 # t) = b # strip_commas (tail @ 44 # t)"
          unfolding append_Cons strip_commas_comma [of "cs @ 44 # t"] d using closer by simp
        also have "\<dots> = (b # strip_commas tail) @ strip_commas (44 # t)"
          by (simp only: ih append_Cons)
        also have "b # strip_commas tail = strip_commas (44 # cs)"
          unfolding strip_commas_comma [of cs] Cons using closer by simp
        finally show ?thesis using True by (simp only:)
      next
        case other: False
        from 2(3) [OF True Cons other]
        have ih: "strip_commas (cs @ 44 # t) = strip_commas cs @ strip_commas (44 # t)" .
        have "strip_commas ((44 # cs) @ 44 # t) = 44 # strip_commas (cs @ 44 # t)"
          unfolding append_Cons strip_commas_comma [of "cs @ 44 # t"] d using other by simp
        also have "\<dots> = (44 # strip_commas cs) @ strip_commas (44 # t)"
          by (simp only: ih append_Cons)
        also have "44 # strip_commas cs = strip_commas (44 # cs)"
          unfolding strip_commas_comma [of cs] Cons using other by simp
        finally show ?thesis using True by (simp only:)
      qed
    qed
  qed
qed

lemma strip_commas_no_comma: "44 \<notin> set a \<Longrightarrow> strip_commas a = a"
  by (induction a) auto

lemma strip_commas_trailing_anywhere:
  "\<forall>c \<in> set ws. is_space c \<Longrightarrow> b = 125 \<or> b = 93 \<Longrightarrow>
   strip_commas (a @ [44] @ ws @ [b] @ tail) = strip_commas a @ [b] @ strip_commas tail"
proof -
  assume ws: "\<forall>c \<in> set ws. is_space c" and b: "b = 125 \<or> b = 93"
  have "strip_commas (a @ [44] @ ws @ [b] @ tail) = strip_commas (a @ 44 # (ws @ b # tail))"
    by simp
  also have "\<dots> = strip_commas a @ strip_commas (44 # (ws @ b # tail))"
    by (rule strip_commas_before_comma)
  also have "strip_commas (44 # (ws @ b # tail)) = b # strip_commas tail"
    using strip_commas_removed [OF ws b] by simp
  finally show ?thesis by simp
qed

lemma removeTrailingCommas_quotes:
  "removeTrailingCommas s =
   map (\<lambda>c. if c = 8220 \<or> c = 8221 \<or> c = 8216 \<or> c = 8217 then 34 else c) (strip_commas s)"
  by (simp add: removeTrailingCommas_def plain_quote_def)

lemma fence_match_skip:
  "\<forall>i < length pre. fence_at (drop i (pre @ s)) = None \<Longrightarrow> fence_match (pre @ s) = fence_match s"
proof (induction pre)
  case Nil
  then show ?case by simp
next
  case (Cons c cs)
  from Cons.prems have here: "fence_at ((c # cs) @ s) = None"
    by (metis drop0 length_greater_0_conv list.distinct(1))
  have "\<forall>i < length cs. fence_at (drop i (cs @ s)) = None"
  proof (intro allI impI)
    fix i assume "i < length cs"
    then have "Suc i < length (c # cs)" by simp
    with Cons.prems have "fence_at (drop (Suc i) ((c # cs) @ s)) = None" by blast
    then show "fence_at (drop i (cs @ s)) = None" by simp
  qed
  from Cons.IH [OF this] here show ?case by simp
qed

lemma fence_at_empty: "fence_at [] = None"
  by (simp add: fence_at_def startsWith_def)

lemma fence_match_here: "fence_at s = Some g \<Longrightarrow> fence_match s = Some g"
  by (cases s) (simp_all add: fence_at_empty)

lemma fence_match_absent: "\<forall>i < length s. fence_at (drop i s) = None \<Longrightarrow> fence_match s = None"
  using fence_match_skip [of s "[]"] by simp

lemma fence_at_needs_fence: "\<not> startsWith s [96, 96, 96] \<Longrightarrow> fence_at s = None"
  by (simp add: fence_at_def)

lemma fence_at_tagged:
  "is_json_tag tag \<Longrightarrow>
   \<forall>i < length body. take 3 (drop i (body @ [96, 96, 96])) \<noteq> [96, 96, 96] \<Longrightarrow>
   fence_at ([96, 96, 96] @ tag @ [10] @ body @ [96, 96, 96] @ tail) = Some body"
proof -
  assume t: "is_json_tag tag"
    and b: "\<forall>i < length body. take 3 (drop i (body @ [96, 96, 96])) \<noteq> [96, 96, 96]"
  from t have len: "length tag = 4" by (simp add: is_json_tag_def)
  then have tk: "take 4 (tag @ [10] @ body @ [96, 96, 96] @ tail) = tag"
    and dr: "drop 4 (tag @ [10] @ body @ [96, 96, 96] @ tail) = [10] @ body @ [96, 96, 96] @ tail"
    and dr5: "drop 5 (tag @ [10] @ body @ [96, 96, 96] @ tail) = body @ [96, 96, 96] @ tail"
    by simp_all
  show ?thesis
    using until_fence_body [OF b, of tail] t tk dr dr5
    by (simp add: fence_at_def startsWith_def)
qed

lemma extractPossibleJSON_eq:
  "extractPossibleJSON text =
     (case fence_match (trim text) of
        None \<Rightarrow> trim text
      | Some g \<Rightarrow> if g = [] then trim text else trim g)"
  by (cases "text = []") (auto simp: extractPossibleJSON_def trim_def Let_def split: option.splits)

lemma trim_no_edge_space:
  "\<not> is_space a \<Longrightarrow> \<not> is_space b \<Longrightarrow> trim (a # xs @ [b]) = a # xs @ [b]"
  by (simp add: trim_def)

lemma extractPossibleJSON_fenced:
  assumes "\<forall>i < length body. take 3 (drop i (body @ [96, 96, 96])) \<noteq> [96, 96, 96]"
    and "body \<noteq> []"
  shows "extractPossibleJSON ([96, 96, 96] @ str ''json'' @ [10] @ body @ [96, 96, 96]) = trim body"
    and "extractPossibleJSON ([96, 96, 96] @ [10] @ body @ [96, 96, 96]) = trim body"
proof -
  have ns: "\<not> is_space 96" by (simp add: is_space_def)
  have t1: "trim ([96, 96, 96] @ str ''json'' @ [10] @ body @ [96, 96, 96]) =
            [96, 96, 96] @ str ''json'' @ [10] @ body @ [96, 96, 96]"
    using trim_no_edge_space [OF ns ns, of "[96, 96] @ str ''json'' @ [10] @ body @ [96, 96]"]
    by simp
  have t2: "trim ([96, 96, 96] @ [10] @ body @ [96, 96, 96]) =
            [96, 96, 96] @ [10] @ body @ [96, 96, 96]"
    using trim_no_edge_space [OF ns ns, of "[96, 96] @ [10] @ body @ [96, 96]"]
    by simp
  have f1: "fence_match ([96, 96, 96] @ str ''json'' @ [10] @ body @ [96, 96, 96]) = Some body"
    using fence_json_tagged [OF assms(1), of "[]"] by simp
  have f2: "fence_match ([96, 96, 96] @ [10] @ body @ [96, 96, 96]) = Some body"
    using fence_untagged [OF assms(1), of "[]"] by simp
  show "extractPossibleJSON ([96, 96, 96] @ str ''json'' @ [10] @ body @ [96, 96, 96]) = trim body"
    unfolding extractPossibleJSON_def Let_def t1 f1 using assms(2) by simp
  show "extractPossibleJSON ([96, 96, 96] @ [10] @ body @ [96, 96, 96]) = trim body"
    unfolding extractPossibleJSON_def Let_def t2 f2 using assms(2) by simp
qed

lemma extractPossibleJSON_unfenced:
  "fence_match (trim text) = None \<Longrightarrow> extractPossibleJSON text = trim text"
  by (auto simp: extractPossibleJSON_def trim_def)

text \<open>
  C6. The parser first parses the raw text and returns that value when parsing
  succeeds, so it agrees with plain JSON parsing on every text that parses. Only when
  that fails does it parse the normalized text. Normalizing takes the trimmed body of
  the first Markdown fence of the trimmed text, tagged \<open>json\<close> (in any case) or not,
  and the trimmed text itself when there is no fence or the body is empty. Then every
  comma that is followed, after optional white space, by \<open>}\<close> or \<open>]\<close> is removed
  together with that white space, every other character is kept, and each of the four
  typographic quotation marks becomes \<open>"\<close>. The fenced text
  \<open>```json\n{"a":1,}\n```\<close> is normalized to \<open>{"a":1}\<close>, so it parses to whatever
  the platform's parser makes of \<open>{"a":1}\<close>.
\<close>

theorem parseModelJSON_two_attempts:
  "(\<forall>v. JSON_parse raw = Inr v \<longrightarrow> parseModelJSON JSON_parse raw = Inr v) \<and>
   (\<forall>e. JSON_parse raw = Inl e \<longrightarrow>
        parseModelJSON JSON_parse raw =
        JSON_parse (removeTrailingCommas (extractPossibleJSON raw))) \<and>
   extractPossibleJSON raw =
     (case fence_match (trim raw) of
        None \<Rightarrow> trim raw
      | Some g \<Rightarrow> if g = [] then trim raw else trim g) \<and>
   ((\<forall>i < length body. take 3 (drop i (body @ [96, 96, 96])) \<noteq> [96, 96, 96]) \<and> body \<noteq> [] \<longrightarrow>
        extractPossibleJSON ([96, 96, 96] @ str ''json'' @ [10] @ body @ [96, 96, 96]) = trim body \<and>
        extractPossibleJSON ([96, 96, 96] @ [10] @ body @ [96, 96, 96]) = trim body) \<and>
   (fence_match (trim raw) = None \<longrightarrow> extractPossibleJSON raw = trim raw) \<and>
   ((\<forall>i < length pre. fence_at (drop i (pre @ s)) = None) \<and> fence_at s = Some g \<longrightarrow>
        fence_match (pre @ s) = Some g) \<and>
   ((\<forall>i < length s. fence_at (drop i s) = None) \<longrightarrow> fence_match s = None) \<and>
   (is_json_tag tag \<and>
    (\<forall>i < length body. take 3 (drop i (body @ [96, 96, 96])) \<noteq> [96, 96, 96]) \<longrightarrow>
        fence_at ([96, 96, 96] @ tag @ [10] @ body @ [96, 96, 96] @ tail) = Some body) \<and>
   ((\<forall>i < length body. take 3 (drop i (body @ [96, 96, 96])) \<noteq> [96, 96, 96]) \<longrightarrow>
        fence_at ([96, 96, 96] @ [10] @ body @ [96, 96, 96] @ tail) = Some body) \<and>
   (\<not> startsWith s [96, 96, 96] \<longrightarrow> fence_at s = None) \<and>
   strip_commas [] = [] \<and>
   (c \<noteq> 44 \<longrightarrow> strip_commas (c # t) = c # strip_commas t) \<and>
   ((\<forall>x \<in> set ws. is_space x) \<and> (b = 125 \<or> b = 93) \<longrightarrow>
        strip_commas (44 # ws @ b # tail) = b # strip_commas tail) \<and>
   (\<not> (\<exists>sp z rest. t = sp @ z # rest \<and> (\<forall>x \<in> set sp. is_space x) \<and> (z = 125 \<or> z = 93)) \<longrightarrow>
        strip_commas (44 # t) = 44 # strip_commas t) \<and>
   ((\<forall>x \<in> set ws. is_space x) \<and> (b = 125 \<or> b = 93) \<longrightarrow>
        strip_commas (a @ [44] @ ws @ [b] @ tail) = strip_commas a @ [b] @ strip_commas tail) \<and>
   (44 \<notin> set a \<longrightarrow> strip_commas a = a) \<and>
   (44 \<notin> set a \<and> (\<forall>x \<in> set ws. is_space x) \<and> (b = 125 \<or> b = 93) \<longrightarrow>
        strip_commas (a @ [44] @ ws @ [b] @ tail) = a @ [b] @ strip_commas tail) \<and>
   removeTrailingCommas raw =
     map (\<lambda>x. if x = 8220 \<or> x = 8221 \<or> x = 8216 \<or> x = 8217 then 34 else x) (strip_commas raw) \<and>
   8220 \<notin> set (removeTrailingCommas raw) \<and>
   8221 \<notin> set (removeTrailingCommas raw) \<and>
   8216 \<notin> set (removeTrailingCommas raw) \<and>
   8217 \<notin> set (removeTrailingCommas raw) \<and>
   removeTrailingCommas (str ''[1,2]'') = str ''[1,2]'' \<and>
   removeTrailingCommas (str ''{'' @ quoted ''a'' @ str '':1,'' @ quoted ''b'' @ str '':[2, ] ,'' @ [10] @ str ''}'') =
     str ''{'' @ quoted ''a'' @ str '':1,'' @ quoted ''b'' @ str '':[2] }'' \<and>
   removeTrailingCommas ([8216] @ str ''a'' @ [8217] @ str '':'' @ [8220] @ str ''b'' @ [8221]) =
     quoted ''a'' @ str '':'' @ quoted ''b'' \<and>
   removeTrailingCommas (extractPossibleJSON fenced_example) = plain_example \<and>
   (\<forall>e v. JSON_parse fenced_example = Inl e \<and> JSON_parse plain_example = Inr v \<longrightarrow>
        parseModelJSON JSON_parse fenced_example = Inr v)"
proof -
  have norm: "removeTrailingCommas (extractPossibleJSON fenced_example) = plain_example"
    by (simp add: run_defs)
  have flow1: "\<forall>v. JSON_parse raw = Inr v \<longrightarrow> parseModelJSON JSON_parse raw = Inr v"
    by (simp add: parseModelJSON_def)
  have flow2: "\<forall>e. JSON_parse raw = Inl e \<longrightarrow>
        parseModelJSON JSON_parse raw =
        JSON_parse (removeTrailingCommas (extractPossibleJSON raw))"
    by (simp add: parseModelJSON_def)
  have example: "\<forall>e v. JSON_parse fenced_example = Inl e \<and> JSON_parse plain_example = Inr v \<longrightarrow>
        parseModelJSON JSON_parse fenced_example = Inr v"
    by (simp add: parseModelJSON_def norm)
  have body_eq: "extractPossibleJSON raw =
     (case fence_match (trim raw) of
        None \<Rightarrow> trim raw
      | Some g \<Rightarrow> if g = [] then trim raw else trim g)"
    by (rule extractPossibleJSON_eq)
  have fenced: "(\<forall>i < length body. take 3 (drop i (body @ [96, 96, 96])) \<noteq> [96, 96, 96]) \<and> body \<noteq> [] \<longrightarrow>
        extractPossibleJSON ([96, 96, 96] @ str ''json'' @ [10] @ body @ [96, 96, 96]) = trim body \<and>
        extractPossibleJSON ([96, 96, 96] @ [10] @ body @ [96, 96, 96]) = trim body"
    using extractPossibleJSON_fenced [of body] by blast
  have unfenced: "fence_match (trim raw) = None \<longrightarrow> extractPossibleJSON raw = trim raw"
    using extractPossibleJSON_unfenced [of raw] by blast
  have search1: "(\<forall>i < length pre. fence_at (drop i (pre @ s)) = None) \<and> fence_at s = Some g \<longrightarrow>
        fence_match (pre @ s) = Some g"
    using fence_match_skip [of pre s] fence_match_here [of s g] by simp
  have search2: "(\<forall>i < length s. fence_at (drop i s) = None) \<longrightarrow> fence_match s = None"
    using fence_match_absent [of s] by blast
  have tagged: "is_json_tag tag \<and>
    (\<forall>i < length body. take 3 (drop i (body @ [96, 96, 96])) \<noteq> [96, 96, 96]) \<longrightarrow>
        fence_at ([96, 96, 96] @ tag @ [10] @ body @ [96, 96, 96] @ tail) = Some body"
    using fence_at_tagged [of tag body tail] by blast
  have untagged: "(\<forall>i < length body. take 3 (drop i (body @ [96, 96, 96])) \<noteq> [96, 96, 96]) \<longrightarrow>
        fence_at ([96, 96, 96] @ [10] @ body @ [96, 96, 96] @ tail) = Some body"
    using fence_untagged [of body tail] by blast
  have nofence: "\<not> startsWith s [96, 96, 96] \<longrightarrow> fence_at s = None"
    using fence_at_needs_fence [of s] by blast
  have c0: "strip_commas [] = []"
    by simp
  have c1: "c \<noteq> 44 \<longrightarrow> strip_commas (c # t) = c # strip_commas t"
    using strip_commas_other [of c t] by blast
  have c2: "(\<forall>x \<in> set ws. is_space x) \<and> (b = 125 \<or> b = 93) \<longrightarrow>
        strip_commas (44 # ws @ b # tail) = b # strip_commas tail"
    using strip_commas_removed [of ws b tail] by blast
  have c3: "\<not> (\<exists>sp z rest. t = sp @ z # rest \<and> (\<forall>x \<in> set sp. is_space x) \<and> (z = 125 \<or> z = 93)) \<longrightarrow>
        strip_commas (44 # t) = 44 # strip_commas t"
    using strip_commas_kept [of t] by blast
  have c4: "(\<forall>x \<in> set ws. is_space x) \<and> (b = 125 \<or> b = 93) \<longrightarrow>
        strip_commas (a @ [44] @ ws @ [b] @ tail) = strip_commas a @ [b] @ strip_commas tail"
    using strip_commas_trailing_anywhere [of ws b a tail] by blast
  have c5: "44 \<notin> set a \<longrightarrow> strip_commas a = a"
    using strip_commas_no_comma [of a] by blast
  have c6: "44 \<notin> set a \<and> (\<forall>x \<in> set ws. is_space x) \<and> (b = 125 \<or> b = 93) \<longrightarrow>
        strip_commas (a @ [44] @ ws @ [b] @ tail) = a @ [b] @ strip_commas tail"
    using strip_commas_trailing [of a ws b tail] by blast
  have q0: "removeTrailingCommas raw =
     map (\<lambda>x. if x = 8220 \<or> x = 8221 \<or> x = 8216 \<or> x = 8217 then 34 else x) (strip_commas raw)"
    by (rule removeTrailingCommas_quotes)
  have q1: "8220 \<notin> set (removeTrailingCommas raw)"
    using removeTrailingCommas_no_smart_quote [of 8220 raw] by blast
  have q2: "8221 \<notin> set (removeTrailingCommas raw)"
    using removeTrailingCommas_no_smart_quote [of 8221 raw] by blast
  have q3: "8216 \<notin> set (removeTrailingCommas raw)"
    using removeTrailingCommas_no_smart_quote [of 8216 raw] by blast
  have q4: "8217 \<notin> set (removeTrailingCommas raw)"
    using removeTrailingCommas_no_smart_quote [of 8217 raw] by blast
  have x1: "removeTrailingCommas (str ''[1,2]'') = str ''[1,2]''"
    by (simp add: run_defs)
  have x2: "removeTrailingCommas (str ''{'' @ quoted ''a'' @ str '':1,'' @ quoted ''b'' @ str '':[2, ] ,'' @ [10] @ str ''}'') =
     str ''{'' @ quoted ''a'' @ str '':1,'' @ quoted ''b'' @ str '':[2] }''"
    by (simp add: run_defs)
  have x3: "removeTrailingCommas ([8216] @ str ''a'' @ [8217] @ str '':'' @ [8220] @ str ''b'' @ [8221]) =
     quoted ''a'' @ str '':'' @ quoted ''b''"
    by (simp add: run_defs)
  show ?thesis
    by (intro conjI; fact)
qed

theorem parseModelJSON_two_attempts_witness:
  "sample_JSON_parse plain_example = Inr (JObject [(str ''a'', JNumber (Finite 1))]) \<and>
   parseModelJSON sample_JSON_parse plain_example = Inr (JObject [(str ''a'', JNumber (Finite 1))]) \<and>
   sample_JSON_parse fenced_example = Inl (Error (str ''Unexpected token'')) \<and>
   parseModelJSON sample_JSON_parse fenced_example = Inr (JObject [(str ''a'', JNumber (Finite 1))]) \<and>
   extractPossibleJSON fenced_example = str ''{'' @ quoted ''a'' @ str '':1,}'' \<and>
   extractPossibleJSON
     (str ''Here it is: '' @ [96, 96, 96] @ str ''JSON'' @ [10] @ str ''[1, 2,]'' @ [10, 96, 96, 96] @
      str '' Done. '') = str ''[1, 2,]'' \<and>
   removeTrailingCommas (str ''['' @ [8220] @ str ''a'' @ [8221] @ str '', ]'') =
     str ''['' @ quoted ''a'' @ str '']''"
proof -
  have a: "sample_JSON_parse plain_example = Inr (JObject [(str ''a'', JNumber (Finite 1))])"
    by (simp add: sample_JSON_parse_def)
  have b: "sample_JSON_parse fenced_example = Inl (Error (str ''Unexpected token''))"
    by (simp add: run_defs)
  have c: "extractPossibleJSON fenced_example = str ''{'' @ quoted ''a'' @ str '':1,}''"
    by (simp add: run_defs)
  have d: "removeTrailingCommas (str ''['' @ [8220] @ str ''a'' @ [8221] @ str '', ]'') =
     str ''['' @ quoted ''a'' @ str '']''"
    by (simp add: run_defs)
  have e: "extractPossibleJSON
     (str ''Here it is: '' @ [96, 96, 96] @ str ''JSON'' @ [10] @ str ''[1, 2,]'' @ [10, 96, 96, 96] @
      str '' Done. '') = str ''[1, 2,]''"
    by (simp add: run_defs)
  from a b c d e
    parseModelJSON_two_attempts [where JSON_parse = sample_JSON_parse and raw = plain_example]
    parseModelJSON_two_attempts [where JSON_parse = sample_JSON_parse and raw = fenced_example]
  show ?thesis by simp
qed

section \<open>Properties of the concatenation manifest\<close>

lemma manifest_loop_ok:
  "\<forall>s \<in> set scenes. has_image_ref s \<longrightarrow> fetchable env s \<Longrightarrow>
   manifest_loop env d content paths lastName fs scenes =
   (Inr (content @ concat (map (manifest_entry env) (filter has_image_ref scenes)),
         paths @ map (\<lambda>s. path_join [d, imageFileName_of env s]) (filter has_image_ref scenes),
         (case rev (filter has_image_ref scenes) of
            [] \<Rightarrow> lastName
          | s # _ \<Rightarrow> Some (imageFileName_of env s))),
    rev (map (\<lambda>s. path_join [d, imageFileName_of env s]) (filter has_image_ref scenes)) @ fs)"
proof (induction scenes arbitrary: content paths lastName fs)
  case Nil
  then show ?case by simp
next
  case (Cons s rest)
  have rest_ok: "\<forall>s \<in> set rest. has_image_ref s \<longrightarrow> fetchable env s"
    using Cons.prems by simp
  show ?case
  proof (cases "has_image_ref s")
    case False
    then have "manifest_loop env d content paths lastName fs (s # rest) =
               manifest_loop env d content paths lastName fs rest"
      by (simp add: has_image_ref_def)
    with False Cons.IH [OF rest_ok] show ?thesis by simp
  next
    case True
    with Cons.prems have f: "fetchable env s" by simp
    then obtain pathname where p: "url_pathname env (or_default (image_url s) []) = Some pathname"
      by (auto simp: fetchable_def)
    then have name: "imageFileName_of env s = path_basename env pathname"
      by (simp add: imageFileName_of_def)
    from f name have dl: "gcs_download env (imageBucketName env) (path_basename env pathname) = None"
      by (simp add: fetchable_def)
    have step: "manifest_loop env d content paths lastName fs (s # rest) =
      manifest_loop env d (content @ manifest_entry env s)
        (paths @ [path_join [d, imageFileName_of env s]])
        (Some (imageFileName_of env s))
        (path_join [d, imageFileName_of env s] # fs) rest"
      using True p dl name by (simp add: has_image_ref_def manifest_entry_def Let_def)
    show ?thesis
      unfolding step Cons.IH [OF rest_ok]
      using True by (cases "rev (filter has_image_ref rest)") simp_all
  qed
qed

lemma manifest_loop_returns:
  "manifest_loop env d content paths lastName fs scenes = (Inr res, fs') \<Longrightarrow>
   \<forall>s \<in> set scenes. has_image_ref s \<longrightarrow> fetchable env s"
proof (induction scenes arbitrary: content paths lastName fs)
  case Nil
  then show ?case by simp
next
  case (Cons s rest)
  show ?case
  proof (cases "has_image_ref s")
    case False
    then have "manifest_loop env d content paths lastName fs (s # rest) =
               manifest_loop env d content paths lastName fs rest"
      by (simp add: has_image_ref_def)
    with Cons.prems have "manifest_loop env d content paths lastName fs rest = (Inr res, fs')"
      by simp
    from Cons.IH [OF this] False show ?thesis by simp
  next
    case True
    then have ne: "or_default (image_url s) [] \<noteq> []" by (simp add: has_image_ref_def)
    from Cons.prems ne obtain pathname where
      p: "url_pathname env (or_default (image_url s) []) = Some pathname"
      by (cases "url_pathname env (or_default (image_url s) [])") auto
    from Cons.prems ne p have
      dl: "gcs_download env (imageBucketName env) (path_basename env pathname) = None"
      by (cases "gcs_download env (imageBucketName env) (path_basename env pathname)")
         (auto simp: Let_def)
    from p dl have f: "fetchable env s"
      by (simp add: fetchable_def imageFileName_of_def)
    from Cons.prems ne p dl obtain c' p' l' f' where
      "manifest_loop env d c' p' l' f' rest = (Inr res, fs')"
      by (auto simp: Let_def)
    from Cons.IH [OF this] f show ?thesis by simp
  qed
qed

lemma build_manifest_returns:
  "fst (build_manifest env d fs scenes) = Inr m \<Longrightarrow>
   \<forall>s \<in> set scenes. has_image_ref s \<longrightarrow> fetchable env s"
proof -
  assume r: "fst (build_manifest env d fs scenes) = Inr m"
  obtain res fs' where l: "manifest_loop env d [] [] None fs scenes = (res, fs')"
    by (cases "manifest_loop env d [] [] None fs scenes") auto
  with r obtain ok where "res = Inr ok"
    by (cases res) (auto simp: build_manifest_def)
  with l show ?thesis
    using manifest_loop_returns [of env d "[]" "[]" None fs scenes ok fs'] by simp
qed

lemma build_manifest_ok:
  assumes "\<forall>s \<in> set scenes. has_image_ref s \<longrightarrow> fetchable env s"
  shows "fst (build_manifest env d fs scenes) =
         Inr (concat (map (manifest_entry env) (filter has_image_ref scenes)) @
              (if filter has_image_ref scenes = [] \<or>
                  imageFileName_of env (last (filter has_image_ref scenes)) = []
               then []
               else [FileLine (imageFileName_of env (last (filter has_image_ref scenes)))]))"
proof (cases "rev (filter has_image_ref scenes)")
  case Nil
  then show ?thesis
    by (simp add: build_manifest_def manifest_loop_ok [OF assms] finish_manifest_def or_default_def)
next
  case (Cons s ss)
  then have l: "last (filter has_image_ref scenes) = s" and ne: "filter has_image_ref scenes \<noteq> []"
    by (metis list.sel(1) hd_rev, metis Nil_is_rev_conv list.distinct(1))
  show ?thesis
    using Cons l ne
    by (simp add: build_manifest_def manifest_loop_ok [OF assms] finish_manifest_def or_default_def)
qed

theorem manifest_trailing_entry_counterexample:
  "filter has_image_ref
     [\<lparr>scene = 1, start_time_secs = 0, end_time_secs = 8, script = str ''One.'',
       prompt = Some (str ''Failed to generate prompt for scene 1''), image_url = None\<rparr>] = [] \<and>
   fst (build_manifest sample_env (str ''/app/temp/job'') []
     [\<lparr>scene = 1, start_time_secs = 0, end_time_secs = 8, script = str ''One.'',
       prompt = Some (str ''Failed to generate prompt for scene 1''), image_url = None\<rparr>]) = Inr [] \<and>
   fst (build_manifest sample_env (str ''/app/temp/job'') [] []) = Inr []"
  by (simp add: run_defs has_image_ref_def)

text \<open>
  C7 (as amended). Take any scene list in which no image reference is an error marker
  and every scene with a non-empty image reference has a reference that parses as a URL
  and an image that downloads. Let these be N scenes. The manifest holds, in list order,
  exactly one (file, duration) pair per such scene: the file is the base name of the
  reference's path and the duration is \<open>max(0.05, end_time_secs - start_time_secs)\<close>,
  which is at least 0.05, written by \<open>toFixed(3)\<close>. When N is at least 1 (and the
  last file name is not empty), exactly one more file entry follows, repeating the last
  file name with no duration; when N is 0 the manifest is empty.
\<close>

theorem manifest_shape:
  assumes "\<forall>s \<in> set scenes. has_image_ref s \<longrightarrow> \<not> error_marked s \<and> fetchable env s"
  shows "fst (build_manifest env d fs scenes) =
           Inr (concat (map (\<lambda>s. [FileLine (imageFileName_of env s),
                                   DurationLine (toFixed3 env (max (5 / 100)
                                      (end_time_secs s - start_time_secs s)))])
                          (filter has_image_ref scenes)) @
                (if filter has_image_ref scenes = [] \<or>
                    imageFileName_of env (last (filter has_image_ref scenes)) = []
                 then []
                 else [FileLine (imageFileName_of env (last (filter has_image_ref scenes)))])) \<and>
         (\<forall>s \<in> set scenes. 5 / 100 \<le> max (5 / 100) (end_time_secs s - start_time_secs s))"
proof
  have ok: "\<forall>s \<in> set scenes. has_image_ref s \<longrightarrow> fetchable env s"
    using assms by blast
  have "manifest_entry env = (\<lambda>s. [FileLine (imageFileName_of env s),
          DurationLine (toFixed3 env (max (5 / 100) (end_time_secs s - start_time_secs s)))])"
    by (rule ext) (simp add: manifest_entry_def)
  with build_manifest_ok [OF ok, of d fs]
  show "fst (build_manifest env d fs scenes) =
           Inr (concat (map (\<lambda>s. [FileLine (imageFileName_of env s),
                                   DurationLine (toFixed3 env (max (5 / 100)
                                      (end_time_secs s - start_time_secs s)))])
                          (filter has_image_ref scenes)) @
                (if filter has_image_ref scenes = [] \<or>
                    imageFileName_of env (last (filter has_image_ref scenes)) = []
                 then []
                 else [FileLine (imageFileName_of env (last (filter has_image_ref scenes)))]))"
    by simp
  show "\<forall>s \<in> set scenes. 5 / 100 \<le> max (5 / 100) (end_time_secs s - start_time_secs s)"
    by simp
qed

theorem manifest_shape_witness:
  "\<not> error_marked (sample_scenes ! 0) \<and> fetchable sample_env (sample_scenes ! 0) \<and>
   \<not> error_marked (sample_scenes ! 2) \<and> fetchable sample_env (sample_scenes ! 2) \<and>
   fst (build_manifest sample_env (str ''/app/temp/job'') []
          [sample_scenes ! 0,
           \<lparr>scene = 2, start_time_secs = 8, end_time_secs = 16, script = str ''Two.'',
             prompt = Some (str ''Failed to generate prompt for scene 2''), image_url = None\<rparr>,
           sample_scenes ! 2]) =
     Inr [FileLine (str ''scene_001_17.png''), DurationLine (str ''8.000''),
          FileLine (str ''scene_003_17.png''), DurationLine (str ''1.000''),
          FileLine (str ''scene_003_17.png'')] \<and>
   fst (build_manifest sample_env (str ''/app/temp/job'') []
          [\<lparr>scene = 1, start_time_secs = 4, end_time_secs = 4, script = str ''One'',
            prompt = Some (str ''A hill. 16:9.''),
            image_url = Some (str ''https://storage.googleapis.com/images/scene_001_17.png'')\<rparr>]) =
     Inr [FileLine (str ''scene_001_17.png''), DurationLine (str ''0.050''),
          FileLine (str ''scene_001_17.png'')]"
  using manifest_shape
    [of "[sample_scenes ! 0,
          \<lparr>scene = 2, start_time_secs = 8, end_time_secs = 16, script = str ''Two.'',
            prompt = Some (str ''Failed to generate prompt for scene 2''), image_url = None\<rparr>,
          sample_scenes ! 2]" sample_env "str ''/app/temp/job''" "[]"]
  by (simp add: run_defs has_image_ref_def fetchable_def imageFileName_of_def error_marked_def)

section \<open>Scenes whose image call failed\<close>

text \<open>
  The assembly loop passes over a scene only when its image reference is \<open>null\<close> or
  empty. A marker \<open>ERROR: ...\<close> is handed to \<open>new URL\<close> and to the download like
  any reference. So in every environment either assembly throws (the marker does not
  parse, or no object of that name downloads) or the manifest holds a file entry made
  from the marker: the marked scene is never left out.
\<close>

lemma error_marked_scene_never_skipped:
  assumes "s \<in> set scenes" and "image_url s = Some (str ''ERROR: '' @ msg)"
  shows "has_image_ref s \<and>
         (\<not> fetchable env s \<longrightarrow> (\<exists>e. fst (build_manifest env d fs scenes) = Inl e)) \<and>
         (\<forall>m. fst (build_manifest env d fs scenes) = Inr m \<longrightarrow>
              FileLine (imageFileName_of env s) \<in> set m)"
proof (intro conjI allI impI)
  show ref: "has_image_ref s"
    using assms(2) by (simp add: has_image_ref_def or_default_def str_def)
  {
    assume nf: "\<not> fetchable env s"
    show "\<exists>e. fst (build_manifest env d fs scenes) = Inl e"
    proof (cases "fst (build_manifest env d fs scenes)")
      case (Inl e)
      then show ?thesis by blast
    next
      case (Inr m)
      from build_manifest_returns [OF this] assms(1) ref nf show ?thesis by blast
    qed
  }
  {
    fix m assume r: "fst (build_manifest env d fs scenes) = Inr m"
    from build_manifest_returns [OF r]
    have ok: "\<forall>s \<in> set scenes. has_image_ref s \<longrightarrow> fetchable env s" .
    from build_manifest_ok [OF ok, of d fs] r
    have "set (concat (map (manifest_entry env) (filter has_image_ref scenes))) \<subseteq> set m"
      by auto
    moreover have "FileLine (imageFileName_of env s) \<in>
        set (concat (map (manifest_entry env) (filter has_image_ref scenes)))"
      using assms(1) ref by (auto simp: manifest_entry_def)
    ultimately show "FileLine (imageFileName_of env s) \<in> set m" by blast
  }
qed

text \<open>
  C1. The specification states that a scene whose image reference is an error marker is
  left out of the manifest and that assembly goes on with the other scenes. The code
  does otherwise. Three finalized scenes, the second one carrying the marker of a failed
  image call: the marked scene is not passed over, its download fails, assembly throws
  and no manifest is built. In the whole job, when the image call of the second scene
  returns no image data, the image stage records the marker and the job ends with an
  error instead of a video.
\<close>

theorem error_marked_scene_aborts_assembly:
  "image_url (sample_scenes ! 1) = Some (str ''ERROR: Imagen returned no image data.'') \<and>
   has_image_ref (sample_scenes ! 1) \<and>
   fst (build_manifest sample_env (str ''/app/temp/job'') [] sample_scenes) =
     Inl (Error (str ''No such object'')) \<and>
   runStep5_CreateVideo sample_env [] (str ''job'') sample_scenes (str ''gs://audio/job.wav'') =
     (Inl (Error (str ''No such object'')), []) \<and>
   map image_url
     (fst (runStep4_GenerateImages
        (sample_env\<lparr>generateImages :=
           (\<lambda>p. if p = str ''A lake. 16:9.'' then Inr None else Inr (Some (str ''iVBORw0KGgo='')))\<rparr>)
        [\<lparr>scene = 1, start_time_secs = 0, end_time_secs = 8, script = str ''One.'',
          prompt = Some (str ''A hill. 16:9.''), image_url = None\<rparr>,
         \<lparr>scene = 2, start_time_secs = 8, end_time_secs = 9, script = str ''Two'',
          prompt = Some (str ''A lake. 16:9.''), image_url = None\<rparr>])) =
     [Some (str ''https://storage.googleapis.com/images/scene_001_17.png''),
      Some (str ''ERROR: Imagen returned no image data.'')] \<and>
   generateStoryboard
     (sample_env\<lparr>generateImages :=
        (\<lambda>p. if p = str ''A lake. 16:9.'' then Inr None else Inr (Some (str ''iVBORw0KGgo='')))\<rparr>)
     [] (Some \<lparr>file_name = str ''My Talk.wav''\<rparr>) =
     (Inr (Failed (str ''No such object'')), [])"
  using error_marked_scene_never_skipped
    [of "sample_scenes ! 1" sample_scenes "str ''Imagen returned no image data.''" sample_env
        "str ''/app/temp/job''" "[]"]
  by (simp add: run_defs has_image_ref_def fetchable_def imageFileName_of_def)

section \<open>Cleanup of the working directory\<close>

lemma rm_recursive_clean: "\<forall>p \<in> set (rm_recursive d fs). \<not> inside d p"
  by (simp add: rm_recursive_def)

lemma runStep5_entered:
  "assertFfmpeg env = None \<Longrightarrow> mkdir_error env = None \<Longrightarrow>
   \<exists>r fs'. runStep5_CreateVideo env fs jobId scenes gcsAudioUri =
     (r, rm_recursive (TEMP_DIR_of env jobId) fs')"
  by (cases "step5_try env (TEMP_DIR_of env jobId # fs) (TEMP_DIR_of env jobId) jobId scenes gcsAudioUri")
     (auto simp: runStep5_CreateVideo_def)

lemma runStep5_not_entered:
  "assertFfmpeg env \<noteq> None \<or> mkdir_error env \<noteq> None \<Longrightarrow>
   \<exists>e. runStep5_CreateVideo env fs jobId scenes gcsAudioUri = (Inl e, fs)"
  by (auto simp: runStep5_CreateVideo_def split: option.splits)

lemma step5_try_transcoder_failure:
  "gcs_download env (hd (split_char 47 (remove_first (str ''gs://'') uri)))
      (join [47] (tl (split_char 47 (remove_first (str ''gs://'') uri)))) = None \<Longrightarrow>
   fst (build_manifest env d (path_join [d, str ''audio.wav''] # fs) scenes) = Inr m \<Longrightarrow>
   writeFile_error env = None \<Longrightarrow> ffmpeg_error env m = Some msg \<Longrightarrow>
   fst (step5_try env fs d jobId scenes uri) = Inl (Error (str ''FFmpeg error: '' @ msg))"
  by (cases "build_manifest env d (path_join [d, str ''audio.wav''] # fs) scenes")
     (simp add: step5_try_def Let_def)

text \<open>
  C8. Once the working directory has been created, every way out of video assembly
  (a returned URL, a transcoder failure, a failed download or any other exception of
  the \<open>try\<close> block) passes through the removal of the directory: afterwards neither
  the directory nor any path below it exists. The two ways out that lie before the
  \<open>try\<close> block (the FFmpeg precondition and a failed \<open>mkdir\<close>) leave the file system
  as it was, so a directory that did not exist before does not exist after. Hence the
  directory of a job does not exist when assembly returns or throws.
\<close>

theorem working_directory_removed:
  "(assertFfmpeg env = None \<and> mkdir_error env = None \<longrightarrow>
      (\<forall>p \<in> set (snd (runStep5_CreateVideo env fs jobId scenes gcsAudioUri)).
          \<not> inside (TEMP_DIR_of env jobId) p)) \<and>
   (assertFfmpeg env \<noteq> None \<or> mkdir_error env \<noteq> None \<longrightarrow>
      snd (runStep5_CreateVideo env fs jobId scenes gcsAudioUri) = fs) \<and>
   ((\<forall>p \<in> set fs. \<not> inside (TEMP_DIR_of env jobId) p) \<longrightarrow>
      (\<forall>p \<in> set (snd (runStep5_CreateVideo env fs jobId scenes gcsAudioUri)).
          \<not> inside (TEMP_DIR_of env jobId) p))"
proof -
  have a: "assertFfmpeg env = None \<and> mkdir_error env = None \<longrightarrow>
      (\<forall>p \<in> set (snd (runStep5_CreateVideo env fs jobId scenes gcsAudioUri)).
          \<not> inside (TEMP_DIR_of env jobId) p)"
  proof
    assume "assertFfmpeg env = None \<and> mkdir_error env = None"
    then obtain r fs' where
      "runStep5_CreateVideo env fs jobId scenes gcsAudioUri =
         (r, rm_recursive (TEMP_DIR_of env jobId) fs')"
      using runStep5_entered by blast
    then show "\<forall>p \<in> set (snd (runStep5_CreateVideo env fs jobId scenes gcsAudioUri)).
          \<not> inside (TEMP_DIR_of env jobId) p"
      using rm_recursive_clean [of "TEMP_DIR_of env jobId" fs'] by simp
  qed
  have b: "assertFfmpeg env \<noteq> None \<or> mkdir_error env \<noteq> None \<longrightarrow>
      snd (runStep5_CreateVideo env fs jobId scenes gcsAudioUri) = fs"
  proof
    assume "assertFfmpeg env \<noteq> None \<or> mkdir_error env \<noteq> None"
    from runStep5_not_entered [OF this]
    show "snd (runStep5_CreateVideo env fs jobId scenes gcsAudioUri) = fs"
      by (metis snd_conv)
  qed
  from a b show ?thesis by metis
qed

theorem working_directory_removed_witness:
  "runStep5_CreateVideo sample_env [str ''/app/package.json''] (str ''job'')
      [sample_scenes ! 0] (str ''gs://audio/job.wav'') =
     (Inr (str ''https://storage.googleapis.com/videos/job.mp4''), [str ''/app/package.json'']) \<and>
   runStep5_CreateVideo (sample_env\<lparr>ffmpeg_error := (\<lambda>content. Some (str ''exit code 1''))\<rparr>)
      [str ''/app/package.json''] (str ''job'') [sample_scenes ! 0] (str ''gs://audio/job.wav'') =
     (Inl (Error (str ''FFmpeg error: exit code 1'')), [str ''/app/package.json'']) \<and>
   runStep5_CreateVideo (sample_env\<lparr>gcs_download := (\<lambda>bucket name. Some (Error (str ''timeout'')))\<rparr>)
      [str ''/app/package.json''] (str ''job'') [sample_scenes ! 0] (str ''gs://audio/job.wav'') =
     (Inl (Error (str ''timeout'')), [str ''/app/package.json''])"
  using working_directory_removed
    [of sample_env "[str ''/app/package.json'']" "str ''job''" "[sample_scenes ! 0]"
        "str ''gs://audio/job.wav''"]
  by (simp add: run_defs)

section \<open>The skip decision of the image stage\<close>

lemma no_valid_prompt_iff:
  "no_valid_prompt s \<longleftrightarrow>
     prompt s = None \<or> prompt s = Some [] \<or>
     (\<exists>rest. prompt s = Some (str ''Failed to generate'' @ rest))"
proof -
  have len: "length (str ''Failed to generate'') = 18" by (simp add: str_def)
  have "\<And>p. take 18 p = str ''Failed to generate'' \<longleftrightarrow>
      (\<exists>rest. p = str ''Failed to generate'' @ rest)"
    using len by (metis append_eq_conv_conj)
  then show ?thesis
    by (auto simp: no_valid_prompt_def split: option.splits)
qed

lemma image_loop_eq:
  "image_loop env acc calls ss =
   (acc @ map (pushed_scene env) ss,
    calls @ map (\<lambda>s. or_default (prompt s) []) (filter (\<lambda>s. \<not> no_valid_prompt s) ss))"
proof (induction ss arbitrary: acc calls)
  case Nil
  then show ?case by simp
next
  case (Cons s rest)
  have len: "length (str ''Failed to generate'') = 18" by (simp add: str_def)
  show ?case
  proof (cases "no_valid_prompt s")
    case True
    then have "image_loop env acc calls (s # rest) = image_loop env (acc @ [s]) calls rest"
      by (auto simp: no_valid_prompt_def startsWith_def len split: option.splits)
    with True show ?thesis by (simp add: Cons.IH pushed_scene_def)
  next
    case False
    then obtain p where p: "prompt s = Some p" "p \<noteq> []"
      "\<not> startsWith p (str ''Failed to generate'')"
      by (auto simp: no_valid_prompt_def startsWith_def len split: option.splits)
    then have od: "or_default (prompt s) [] = p" by (simp add: or_default_def)
    show ?thesis
    proof (cases "generate_scene_image env s p")
      case (Inl e)
      with p False od show ?thesis by (simp add: Cons.IH pushed_scene_def)
    next
      case (Inr u)
      with p False od show ?thesis by (simp add: Cons.IH pushed_scene_def)
    qed
  qed
qed

lemma generate_scene_image_nonempty: "generate_scene_image env s p = Inr u \<Longrightarrow> u \<noteq> []"
  by (auto simp: generate_scene_image_def Let_def str_def split: sum.splits option.splits if_splits)

lemma pushed_scene_generated:
  "\<not> no_valid_prompt s \<Longrightarrow> \<exists>ref. pushed_scene env s = s\<lparr>image_url := Some ref\<rparr> \<and> ref \<noteq> []"
  by (cases "generate_scene_image env s (or_default (prompt s) [])")
     (auto simp: pushed_scene_def str_def dest: generate_scene_image_nonempty)

lemma placeholder_is_skipped: "no_valid_prompt (s\<lparr>prompt := Some (placeholder_prompt n)\<rparr>)"
  by (simp add: no_valid_prompt_def placeholder_prompt_def str_def)

text \<open>
  C10. The image stage decides by the text of the prompt alone. A scene is appended
  unchanged, and no image call is made for it, exactly when its prompt is \<open>null\<close>,
  empty or begins with \<open>Failed to generate\<close>; for every other scene one image call is
  made with its prompt and the scene is appended with an image reference or an error
  marker. The calls made are the prompts of the other scenes, in order. The
  placeholder that reconciliation writes for a scene without a prompt begins with these
  words, and so may a prompt that the model itself wrote: it is passed over as well.
\<close>

theorem image_stage_skips_by_prefix:
  "(no_valid_prompt s \<longleftrightarrow>
      prompt s = None \<or> prompt s = Some [] \<or>
      (\<exists>rest. prompt s = Some (str ''Failed to generate'' @ rest))) \<and>
   length (fst (runStep4_GenerateImages env scenes)) = length scenes \<and>
   (\<forall>i < length scenes.
      (no_valid_prompt (scenes ! i) \<longrightarrow>
         fst (runStep4_GenerateImages env scenes) ! i = scenes ! i) \<and>
      (\<not> no_valid_prompt (scenes ! i) \<longrightarrow>
         (\<exists>ref. fst (runStep4_GenerateImages env scenes) ! i =
                  (scenes ! i)\<lparr>image_url := Some ref\<rparr> \<and> ref \<noteq> []))) \<and>
   snd (runStep4_GenerateImages env scenes) =
     map (\<lambda>s. or_default (prompt s) []) (filter (\<lambda>s. \<not> no_valid_prompt s) scenes) \<and>
   (\<forall>rest. prompt s = Some (str ''Failed to generate'' @ rest) \<longrightarrow>
      runStep4_GenerateImages env [s] = ([s], [])) \<and>
   no_valid_prompt (s\<lparr>prompt := Some (placeholder_prompt n)\<rparr>)"
proof (intro conjI)
  show "no_valid_prompt (s\<lparr>prompt := Some (placeholder_prompt n)\<rparr>)"
    by (rule placeholder_is_skipped)
  show "no_valid_prompt s \<longleftrightarrow>
      prompt s = None \<or> prompt s = Some [] \<or>
      (\<exists>rest. prompt s = Some (str ''Failed to generate'' @ rest))"
    by (rule no_valid_prompt_iff)
  show "length (fst (runStep4_GenerateImages env scenes)) = length scenes"
    by (simp add: runStep4_GenerateImages_def image_loop_eq)
  show "snd (runStep4_GenerateImages env scenes) =
     map (\<lambda>s. or_default (prompt s) []) (filter (\<lambda>s. \<not> no_valid_prompt s) scenes)"
    by (simp add: runStep4_GenerateImages_def image_loop_eq)
  show "\<forall>rest. prompt s = Some (str ''Failed to generate'' @ rest) \<longrightarrow>
      runStep4_GenerateImages env [s] = ([s], [])"
    using no_valid_prompt_iff [of s]
    by (auto simp: runStep4_GenerateImages_def image_loop_eq pushed_scene_def)
  show "\<forall>i < length scenes.
      (no_valid_prompt (scenes ! i) \<longrightarrow>
         fst (runStep4_GenerateImages env scenes) ! i = scenes ! i) \<and>
      (\<not> no_valid_prompt (scenes ! i) \<longrightarrow>
         (\<exists>ref. fst (runStep4_GenerateImages env scenes) ! i =
                  (scenes ! i)\<lparr>image_url := Some ref\<rparr> \<and> ref \<noteq> []))"
  proof (intro allI impI conjI)
    fix i assume i: "i < length scenes"
    then have at: "fst (runStep4_GenerateImages env scenes) ! i = pushed_scene env (scenes ! i)"
      by (simp add: runStep4_GenerateImages_def image_loop_eq)
    {
      assume "no_valid_prompt (scenes ! i)"
      with at show "fst (runStep4_GenerateImages env scenes) ! i = scenes ! i"
        by (simp add: pushed_scene_def)
    }
    {
      assume "\<not> no_valid_prompt (scenes ! i)"
      from pushed_scene_generated [OF this, of env] at
      show "\<exists>ref. fst (runStep4_GenerateImages env scenes) ! i =
                  (scenes ! i)\<lparr>image_url := Some ref\<rparr> \<and> ref \<noteq> []"
        by simp
    }
  qed
qed

theorem image_stage_skips_by_prefix_witness:
  "runStep4_GenerateImages sample_env
     [\<lparr>scene = 1, start_time_secs = 0, end_time_secs = 8, script = str ''One.'',
       prompt = Some (str ''Failed to generate prompt for scene 1''), image_url = None\<rparr>,
      \<lparr>scene = 2, start_time_secs = 8, end_time_secs = 9, script = str ''Two'',
       prompt = Some (str ''Failed to generate power, the turbine stands still. 16:9.''),
       image_url = None\<rparr>,
      \<lparr>scene = 3, start_time_secs = 9, end_time_secs = 10, script = str ''Three'',
       prompt = Some (str ''A lake. 16:9.''), image_url = None\<rparr>] =
   ([\<lparr>scene = 1, start_time_secs = 0, end_time_secs = 8, script = str ''One.'',
       prompt = Some (str ''Failed to generate prompt for scene 1''), image_url = None\<rparr>,
     \<lparr>scene = 2, start_time_secs = 8, end_time_secs = 9, script = str ''Two'',
       prompt = Some (str ''Failed to generate power, the turbine stands still. 16:9.''),
       image_url = None\<rparr>,
     \<lparr>scene = 3, start_time_secs = 9, end_time_secs = 10, script = str ''Three'',
       prompt = Some (str ''A lake. 16:9.''),
       image_url = Some (str ''https://storage.googleapis.com/images/scene_003_17.png'')\<rparr>],
    [str ''A lake. 16:9.''])"
  using image_stage_skips_by_prefix
    [of "\<lparr>scene = 2, start_time_secs = 8, end_time_secs = 9, script = str ''Two'',
          prompt = Some (str ''Failed to generate power, the turbine stands still. 16:9.''),
          image_url = None\<rparr>" sample_env "[]"]
  by (simp add: run_defs)

section \<open>The job boundary\<close>

lemma or_default_nonempty: "d \<noteq> [] \<Longrightarrow> or_default x d \<noteq> []"
  by (auto simp: or_default_def split: option.splits)

lemma runStep5_video_url:
  "fst (runStep5_CreateVideo env fs jobId scenes uri) = Inr video \<Longrightarrow>
   video = str ''https://storage.googleapis.com/'' @ videoBucketName env @ [47] @ jobId @ str ''.mp4''"
  by (auto simp: runStep5_CreateVideo_def step5_try_def Let_def
      split: option.splits prod.splits sum.splits)

lemma storyboard_try_complete:
  "fst (storyboard_try env fs formData) = Inr (scenes, video) \<Longrightarrow>
   \<exists>file words uri withPrompts.
     formData = Some file \<and>
     runStep1_Transcribe env
       (getJobId env (file_name file) @ str ''_'' @ decimal (date_now env)) file = Inr (words, uri) \<and>
     runStep3_AnalyzeAndGeneratePrompts env (runStep2_ChunkScript words)
       (join [32] (map word words)) = Inr withPrompts \<and>
     scenes = fst (runStep4_GenerateImages env withPrompts) \<and>
     fst (runStep5_CreateVideo env fs
       (getJobId env (file_name file) @ str ''_'' @ decimal (date_now env)) scenes uri) = Inr video"
  by (auto simp: storyboard_try_def Let_def split: option.splits prod.splits sum.splits)

text \<open>
  C2. For every input and every behaviour of the collaborators, \<open>generateStoryboard\<close>
  returns a value and throws nothing: either the complete result, made of the scene
  list that the image stage produced and the URL of the published video, or a failure
  that carries one non-empty message text (the message of the exception that stopped
  the pipeline, or a fixed default when it has none).
\<close>

theorem generateStoryboard_never_throws:
  "\<exists>r. fst (generateStoryboard env fs formData) = Inr r \<and>
     (case r of
        Complete scenes video \<Rightarrow>
          fst (storyboard_try env fs formData) = Inr (scenes, video) \<and>
          (\<exists>withPrompts. scenes = fst (runStep4_GenerateImages env withPrompts)) \<and>
          (\<exists>jobId. video = str ''https://storage.googleapis.com/'' @ videoBucketName env @
                           [47] @ jobId @ str ''.mp4'')
      | Failed msg \<Rightarrow>
          msg \<noteq> [] \<and>
          (\<exists>e. fst (storyboard_try env fs formData) = Inl e \<and>
               msg = or_default (message e) (str ''An unknown server error occurred.'')))"
proof (cases "storyboard_try env fs formData")
  case (Pair r fs')
  show ?thesis
  proof (cases r)
    case (Inl e)
    have "str ''An unknown server error occurred.'' \<noteq> []" by (simp add: str_def)
    then have "or_default (message e) (str ''An unknown server error occurred.'') \<noteq> []"
      by (rule or_default_nonempty)
    with Pair Inl show ?thesis by (simp add: generateStoryboard_def)
  next
    case (Inr ok)
    obtain scenes video where ok: "ok = (scenes, video)" by (cases ok)
    with Pair Inr have t: "fst (storyboard_try env fs formData) = Inr (scenes, video)" by simp
    from storyboard_try_complete [OF t] obtain upload :: File and uri withPrompts where
      sc: "scenes = fst (runStep4_GenerateImages env withPrompts)"
      and v: "fst (runStep5_CreateVideo env fs
        (getJobId env (file_name upload) @ str ''_'' @ decimal (date_now env)) scenes uri) = Inr video"
      by blast
    from runStep5_video_url [OF v] have
      "\<exists>jobId. video = str ''https://storage.googleapis.com/'' @ videoBucketName env @
                           [47] @ jobId @ str ''.mp4''"
      by blast
    with Pair Inr ok sc show ?thesis
      by (auto simp: generateStoryboard_def)
  qed
qed

theorem generateStoryboard_never_throws_witness:
  "generateStoryboard sample_env [] (Some \<lparr>file_name = str ''My Talk.wav''\<rparr>) =
     (Inr (Complete
        [\<lparr>scene = 1, start_time_secs = 0, end_time_secs = 8, script = str ''One.'',
          prompt = Some (str ''A hill. 16:9.''),
          image_url = Some (str ''https://storage.googleapis.com/images/scene_001_17.png'')\<rparr>,
         \<lparr>scene = 2, start_time_secs = 8, end_time_secs = 9, script = str ''Two'',
          prompt = Some (str ''A lake. 16:9.''),
          image_url = Some (str ''https://storage.googleapis.com/images/scene_002_17.png'')\<rparr>]
        (str ''https://storage.googleapis.com/videos/my-talk_17.mp4'')), []) \<and>
   generateStoryboard sample_env [] None = (Inr (Failed (str ''No audio file found.'')), []) \<and>
   generateStoryboard (sample_env\<lparr>transcribe := (\<lambda>uri file. Inl (Thrown None))\<rparr>) []
       (Some \<lparr>file_name = str ''My Talk.wav''\<rparr>) =
     (Inr (Failed (str ''An unknown server error occurred.'')), []) \<and>
   generateStoryboard (sample_env\<lparr>ffmpeg_accessible := False\<rparr>) []
       (Some \<lparr>file_name = str ''My Talk.wav''\<rparr>) =
     (Inr (Failed (str ''FFmpeg not found at: /usr/bin/ffmpeg'')), [])"
  using generateStoryboard_never_throws
    [of sample_env "[]" "Some \<lparr>file_name = str ''My Talk.wav''\<rparr>"]
  by (simp add: run_defs)


end
